theory Spec2Isabelle
  imports Main "HOL-Library.Sublist" "HOL-Library.AList" "HOL-Library.Multiset"
begin

section \<open>Strings\<close>

text \<open>
  A JavaScript string is modelled as a \<^typ>\<open>string\<close> (a list of 8-bit characters), which
  is exact for ASCII content. \<open>endsWith\<close> and \<open>startsWith\<close> are the methods of
  \<open>String.prototype\<close>; \<open>split_on\<close> is \<open>split\<close> with a one-character separator,
  \<open>join_with\<close> is \<open>Array.prototype.join\<close>, \<open>trim\<close> strips the ASCII white space
  from both ends.
\<close>

definition endsWith :: "string \<Rightarrow> string \<Rightarrow> bool" where
  "endsWith s t = suffix t s"

definition startsWith :: "string \<Rightarrow> string \<Rightarrow> bool" where
  "startsWith s t = prefix t s"

definition LF :: char where
  "LF = CHR 0x0A"

definition isSpace :: "char \<Rightarrow> bool" where
  "isSpace c = (c \<in> {CHR 0x09, CHR 0x0A, CHR 0x0B, CHR 0x0C, CHR 0x0D, CHR 0x20})"

definition trim :: "string \<Rightarrow> string" where
  "trim s = rev (dropWhile isSpace (rev (dropWhile isSpace s)))"

fun split_on :: "char \<Rightarrow> string \<Rightarrow> string list" where
  "split_on c [] = [[]]"
| "split_on c (x # xs) =
     (if x = c then [] # split_on c xs
      else (case split_on c xs of [] \<Rightarrow> [[x]] | l # ls \<Rightarrow> (x # l) # ls))"

fun join_with :: "string \<Rightarrow> string list \<Rightarrow> string" where
  "join_with sep [] = []"
| "join_with sep [l] = l"
| "join_with sep (l # l' # ls) = l @ sep @ join_with sep (l' # ls)"

section \<open>The file system\<close>

text \<open>
  The disk is a tree of regular files and directories. A file holds its bytes; a directory
  holds the size \<open>stat\<close> reports for the directory itself and its entries in the order
  \<open>readdir\<close> lists them. A path is the list of its components.
\<close>

type_synonym path = "string list"

datatype node = File string | Dir nat "(string \<times> node) list"

primrec lookup :: "node \<Rightarrow> path \<Rightarrow> node option" where
  "lookup n [] = Some n"
| "lookup n (x # xs) =
     (case n of
        File _ \<Rightarrow> None
      | Dir _ es \<Rightarrow> (case map_of es x of None \<Rightarrow> None | Some c \<Rightarrow> lookup c xs))"

text \<open>
  \<open>belowFile n p\<close>: the walk along \<open>p\<close> reaches a regular file while components of the
  path are left. Such a path names nothing, and a system call on it fails with
  \<open>ENOTDIR\<close>, not with \<open>ENOENT\<close>.
\<close>

primrec belowFile :: "node \<Rightarrow> path \<Rightarrow> bool" where
  "belowFile n [] = False"
| "belowFile n (x # xs) =
     (case n of
        File _ \<Rightarrow> True
      | Dir _ es \<Rightarrow> (case map_of es x of None \<Rightarrow> False | Some c \<Rightarrow> belowFile c xs))"

primrec remove :: "path \<Rightarrow> node \<Rightarrow> node" where
  "remove [] n = n"
| "remove (x # xs) n =
     (case n of
        File c \<Rightarrow> File c
      | Dir d es \<Rightarrow>
          if xs = [] then Dir d (filter (\<lambda>e. fst e \<noteq> x) es)
          else Dir d (map (\<lambda>e. if fst e = x then (fst e, remove xs (snd e)) else e) es))"

primrec put :: "path \<Rightarrow> string \<Rightarrow> node \<Rightarrow> node option" where
  "put [] c n = (case n of File _ \<Rightarrow> Some (File c) | Dir _ _ \<Rightarrow> None)"
| "put (x # xs) c n =
     (case n of
        File _ \<Rightarrow> None
      | Dir d es \<Rightarrow>
          (case map_of es x of
             None \<Rightarrow> if xs = [] then Some (Dir d (es @ [(x, File c)])) else None
           | Some ch \<Rightarrow>
               (case put xs c ch of
                  None \<Rightarrow> None
                | Some ch' \<Rightarrow> Some (Dir d (AList.update x ch' es)))))"



text \<open>
  The state of the disk: the tree, and the paths on which an \<open>rm\<close> call fails with a
  permission error (the I/O failures of the deletion path).
\<close>

record fsys =
  root :: node
  denied :: "path set"

text \<open>
  What a call can throw: the error of a system call, or the \<open>TypeError\<close> of \<open>path.join\<close>
  for an argument that is not a string.
\<close>

datatype js_error = ENOENT | ENOTDIR | EISDIR | EPERM | TypeError

fun errorMessage :: "js_error \<Rightarrow> string" where
  "errorMessage ENOENT = ''ENOENT: no such file or directory''"
| "errorMessage ENOTDIR = ''ENOTDIR: not a directory''"
| "errorMessage EISDIR = ''Path is a directory''"
| "errorMessage EPERM = ''EPERM: operation not permitted''"
| "errorMessage TypeError = ''The path argument must be of type string''"

datatype Dirent = Dirent (name: string) (isFile: bool) (isDirectory: bool)

datatype Stats = Stats (st_size: nat) (st_isDirectory: bool)

definition readdir :: "fsys \<Rightarrow> path \<Rightarrow> string list option" where
  "readdir w p =
     (case lookup (root w) p of Some (Dir _ es) \<Rightarrow> Some (map fst es) | _ \<Rightarrow> None)"

definition dirent :: "string \<times> node \<Rightarrow> Dirent" where
  "dirent e = (case snd e of File _ \<Rightarrow> Dirent (fst e) True False
                           | Dir _ _ \<Rightarrow> Dirent (fst e) False True)"

definition readdirTypes :: "fsys \<Rightarrow> path \<Rightarrow> Dirent list option" where
  "readdirTypes w p =
     (case lookup (root w) p of Some (Dir _ es) \<Rightarrow> Some (map dirent es) | _ \<Rightarrow> None)"

definition stat :: "fsys \<Rightarrow> path \<Rightarrow> Stats option" where
  "stat w p =
     (case lookup (root w) p of
        None \<Rightarrow> None
      | Some (File c) \<Rightarrow> Some (Stats (length c) False)
      | Some (Dir d _) \<Rightarrow> Some (Stats d True))"

definition readFile :: "fsys \<Rightarrow> path \<Rightarrow> string option" where
  "readFile w p = (case lookup (root w) p of Some (File c) \<Rightarrow> Some c | _ \<Rightarrow> None)"

definition writeFile :: "fsys \<Rightarrow> path \<Rightarrow> string \<Rightarrow> fsys option" where
  "writeFile w p c =
     (case put p c (root w) of None \<Rightarrow> None | Some r \<Rightarrow> Some (w\<lparr>root := r\<rparr>))"

text \<open>
  \<open>existsSync\<close> takes the path as the string stored in a record; its components are the
  non-empty pieces between slashes, and the empty string names nothing.
\<close>

definition path_of :: "string \<Rightarrow> path" where
  "path_of s = filter (\<lambda>c. c \<noteq> []) (split_on (CHR ''/'') s)"

definition existsSync :: "fsys \<Rightarrow> string \<Rightarrow> bool" where
  "existsSync w s = (s \<noteq> [] \<and> lookup (root w) (path_of s) \<noteq> None)"

text \<open>
  \<open>rm(path, {force, recursive})\<close>. A path below a regular file is an error
  (\<open>ENOTDIR\<close>) with or without \<open>force\<close>: \<open>force\<close> forgives only a target that is missing
  (\<open>ENOENT\<close>). A directory is removed only with \<open>recursive\<close>; a denied target and the
  root are not removed. On an error the disk is unchanged.
\<close>

definition rm :: "fsys \<Rightarrow> path \<Rightarrow> bool \<Rightarrow> bool \<Rightarrow> js_error + fsys" where
  "rm w p force recursive =
     (if belowFile (root w) p then Inl ENOTDIR
      else
        (case lookup (root w) p of
           None \<Rightarrow> if force then Inr w else Inl ENOENT
         | Some n \<Rightarrow>
             if p = [] \<or> p \<in> denied w then Inl EPERM
             else (case n of
                     File _ \<Rightarrow> Inr (w\<lparr>root := remove p (root w)\<rparr>)
                   | Dir _ _ \<Rightarrow>
                       if recursive then Inr (w\<lparr>root := remove p (root w)\<rparr>)
                       else Inl EISDIR)))"

text \<open>
  \<open>path.join(dir, x)\<close> with \<open>x\<close> read from a record: the directory extended by one
  component when \<open>x\<close> is a string, a \<open>TypeError\<close> when it is not. (For constant and
  listed names \<open>join(dir, name)\<close> is written \<open>dir @ [name]\<close>.) \<open>String_of\<close> is the
  conversion of a template literal.
\<close>

definition path_join :: "path \<Rightarrow> string option \<Rightarrow> js_error + path" where
  "path_join dir x = (case x of None \<Rightarrow> Inl TypeError | Some n \<Rightarrow> Inr (dir @ [n]))"

definition String_of :: "string option \<Rightarrow> string" where
  "String_of x = (case x of None \<Rightarrow> ''undefined'' | Some s \<Rightarrow> s)"

section \<open>Records (types.ts)\<close>

text \<open>
  The records are the interfaces of \<open>types.ts\<close>, as far as the code reads them. A record
  read from a file is whatever \<open>JSON.parse\<close> returns, cast to the interface without a
  check. The fields the code uses as a path component or as a key of a \<open>Map\<close> (the ids)
  therefore are a \<^typ>\<open>string option\<close>: \<open>None\<close> when the value read has no string there
  (\<open>undefined\<close> for a missing field). The other fields are taken at their declared
  type. Times are milliseconds, sizes are bytes.
\<close>

record SessionTime =
  created :: int
  updated :: int

record Session =
  id :: "string option"
  slug :: string
  version :: string
  projectID :: "string option"
  directory :: string
  parentID :: "string option"
  title :: "string option"
  time :: SessionTime

record SessionInfo = Session +
  sizeBytes :: nat
  messageCount :: nat
  isOrphan :: bool
  projectWorktree :: string

record MessageTime =
  created :: int
  completed :: "int option"

record Message =
  id :: "string option"
  sessionID :: string
  role :: string
  time :: MessageTime

record ProjectTime =
  created :: int
  updated :: int

record Project =
  id :: "string option"
  worktree :: string
  vcs :: "string option"
  sandboxes :: "string list option"
  time :: ProjectTime

record ProjectInfo = Project +
  sessionCount :: nat
  totalSizeBytes :: nat
  isOrphan :: bool
  sessions :: "SessionInfo list"

record FrecencyEntry =
  path :: string
  frequency :: int
  lastOpen :: int

text \<open>
  The \<open>date\<close> of a log file is the time value of its \<open>Date\<close> object; \<open>None\<close> is the
  time value \<open>NaN\<close> of an invalid date.
\<close>

record LogFile =
  path :: path
  filename :: string
  date :: "int option"
  sizeBytes :: nat

section \<open>Environment and configuration (config.ts)\<close>

text \<open>
  What the process takes from outside the repository: the home directory, and the library
  functions \<open>JSON.parse\<close> and \<open>Date\<close>. \<open>parseSession\<close>, \<open>parseMessage\<close> and
  \<open>parseProject\<close> are \<open>JSON.parse\<close> seen through the fields above: \<open>None\<close> when the call
  throws or returns a value that counts as false (\<open>null\<close>, \<open>false\<close>, \<open>0\<close>, the empty
  string), which the code skips like a file it cannot read; otherwise the record, whose
  ids are \<open>None\<close> where the value has no string (so \<^verbatim>\<open>{}\<close> is a record without ids).
  \<open>parseEntry\<close> is \<open>None\<close> when \<open>JSON.parse\<close> throws or the value has no string
  \<open>path\<close>, which are the cases where reading \<open>entry.path.startsWith\<close> throws.
  \<open>dateOf\<close> is the time value of \<open>new Date(text)\<close> for a text \<open>YYYY-MM-DDTHH:MM:SS\<close>:
  \<open>None\<close> when the text is not a date.
\<close>

record env =
  HOME :: path
  parseSession :: "string \<Rightarrow> Session option"
  parseMessage :: "string \<Rightarrow> Message option"
  parseProject :: "string \<Rightarrow> Project option"
  parseEntry :: "string \<Rightarrow> FrecencyEntry option"
  dateOf :: "string \<Rightarrow> int option"

definition OPENCODE_STATE_DIR :: "env \<Rightarrow> path" where
  "OPENCODE_STATE_DIR e = HOME e @ [''.local'', ''state'', ''opencode'']"

definition OPENCODE_SHARE_DIR :: "env \<Rightarrow> path" where
  "OPENCODE_SHARE_DIR e = HOME e @ [''.local'', ''share'', ''opencode'']"

definition FRECENCY_FILE :: "env \<Rightarrow> path" where
  "FRECENCY_FILE e = OPENCODE_STATE_DIR e @ [''frecency.jsonl'']"

definition STORAGE_DIR :: "env \<Rightarrow> path" where
  "STORAGE_DIR e = OPENCODE_SHARE_DIR e @ [''storage'']"

definition SESSION_DIR :: "env \<Rightarrow> path" where
  "SESSION_DIR e = STORAGE_DIR e @ [''session'']"

definition MESSAGE_DIR :: "env \<Rightarrow> path" where
  "MESSAGE_DIR e = STORAGE_DIR e @ [''message'']"

definition PART_DIR :: "env \<Rightarrow> path" where
  "PART_DIR e = STORAGE_DIR e @ [''part'']"

definition PROJECT_DIR :: "env \<Rightarrow> path" where
  "PROJECT_DIR e = STORAGE_DIR e @ [''project'']"

definition SESSION_DIFF_DIR :: "env \<Rightarrow> path" where
  "SESSION_DIFF_DIR e = STORAGE_DIR e @ [''session_diff'']"

definition TODO_DIR :: "env \<Rightarrow> path" where
  "TODO_DIR e = STORAGE_DIR e @ [''todo'']"

definition SNAPSHOT_DIR :: "env \<Rightarrow> path" where
  "SNAPSHOT_DIR e = OPENCODE_SHARE_DIR e @ [''snapshot'']"

definition LOG_DIR :: "env \<Rightarrow> path" where
  "LOG_DIR e = OPENCODE_SHARE_DIR e @ [''log'']"

section \<open>Loading (data/loader.ts)\<close>

definition readJsonFile :: "(string \<Rightarrow> 'a option) \<Rightarrow> fsys \<Rightarrow> path \<Rightarrow> 'a option" where
  "readJsonFile parse w p = (case readFile w p of None \<Rightarrow> None | Some content \<Rightarrow> parse content)"




definition directoryExists :: "fsys \<Rightarrow> string \<Rightarrow> bool" where
  "directoryExists w p = existsSync w p"









text \<open>
  \<open>groupSessions\<close> is the loop that fills \<open>sessionsByProject\<close>. \<open>Math_min\<close> and
  \<open>Math_max\<close> are applied to the times of a group; a group is never empty (see
  \<open>groupSessions_nonempty\<close>), so the value for no argument, an infinity in JavaScript,
  is never used.
\<close>

definition groupSessions ::
  "SessionInfo list \<Rightarrow> (string option \<times> SessionInfo list) list" where
  "groupSessions ss =
     fold (\<lambda>session sessionsByProject.
       (let projectSessions =
              (case map_of sessionsByProject (projectID session) of
                 None \<Rightarrow> [] | Some l \<Rightarrow> l)
        in AList.update (projectID session) (projectSessions @ [session]) sessionsByProject))
       ss []"

fun Math_min :: "int list \<Rightarrow> int" where
  "Math_min [] = 0"
| "Math_min (x # xs) = fold min xs x"

fun Math_max :: "int list \<Rightarrow> int" where
  "Math_max [] = 0"
| "Math_max (x # xs) = fold max xs x"

definition totalSizeOf :: "SessionInfo list \<Rightarrow> nat" where
  "totalSizeOf projectSessions =
     fold (\<lambda>s sum. sum + SessionInfo.sizeBytes s) projectSessions 0"

definition projectInfoOfGroup ::
  "fsys \<Rightarrow> (string option \<times> Project) list \<Rightarrow> string option \<times> SessionInfo list
    \<Rightarrow> ProjectInfo" where
  "projectInfoOfGroup w projects g =
     (let pid = fst g; projectSessions = snd g in
      case map_of projects pid of
        None \<Rightarrow>
          \<lparr> Project.id = pid,
            worktree = (case projectSessions of [] \<Rightarrow> ''/unknown'' | s # _ \<Rightarrow> directory s),
            vcs = None,
            sandboxes = None,
            Project.time =
              \<lparr> ProjectTime.created =
                  Math_min (map (\<lambda>s. SessionTime.created (Session.time s)) projectSessions),
                ProjectTime.updated =
                  Math_max (map (\<lambda>s. SessionTime.updated (Session.time s)) projectSessions) \<rparr>,
            sessionCount = length projectSessions,
            totalSizeBytes = totalSizeOf projectSessions,
            ProjectInfo.isOrphan = True,
            sessions = projectSessions \<rparr>
      | Some project \<Rightarrow>
          Project.extend project
            (ProjectInfo.fields (length projectSessions) (totalSizeOf projectSessions)
               (\<not> directoryExists w (worktree project)) projectSessions))"

definition projectInfoEmpty :: "fsys \<Rightarrow> Project \<Rightarrow> ProjectInfo" where
  "projectInfoEmpty w project =
     Project.extend project
       (ProjectInfo.fields 0 0 (\<not> directoryExists w (worktree project)) [])"

text \<open>\<open>buildProjectInfos\<close> is the array \<open>projectInfos\<close> before it is sorted.\<close>

definition buildProjectInfos ::
  "fsys \<Rightarrow> SessionInfo list \<Rightarrow> (string option \<times> Project) list \<Rightarrow> ProjectInfo list" where
  "buildProjectInfos w ss projects =
     (let sessionsByProject = groupSessions ss in
      map (projectInfoOfGroup w projects) sessionsByProject
      @ map (\<lambda>kv. projectInfoEmpty w (snd kv))
          (filter (\<lambda>kv. map_of sessionsByProject (fst kv) = None) projects))"

definition loadProjectInfos ::
  "fsys \<Rightarrow> SessionInfo list \<Rightarrow> (string option \<times> Project) list \<Rightarrow> ProjectInfo list" where
  "loadProjectInfos w ss projects =
     sort_key (\<lambda>p. - ProjectTime.updated (Project.time p)) (buildProjectInfos w ss projects)"












record LoadedData =
  sessions :: "SessionInfo list"
  projects :: "ProjectInfo list"
  logs :: "LogFile list"


section \<open>Deleting (data/manager.ts)\<close>

text \<open>
  Every operation that changes the disk returns its result together with the new disk.
  \<open>safeRm\<close> is a forced \<open>rm\<close> whose error is caught and turned into \<open>false\<close>.
\<close>

definition safeRm :: "fsys \<Rightarrow> path \<Rightarrow> bool \<Rightarrow> bool \<times> fsys" where
  "safeRm w p recursive =
     (case rm w p True recursive of Inl _ \<Rightarrow> (False, w) | Inr w' \<Rightarrow> (True, w'))"

record DeleteSessionResult =
  success :: bool
  sessionID :: "string option"
  filesDeleted :: nat
  bytesFreed :: nat
  error :: "string option"

text \<open>
  Step 1 of \<open>deleteSession\<close>: the \<open>id\<close> of every message record read from the message
  directory, a string or \<open>undefined\<close>. A listing that fails gives no ids.
\<close>

definition sessionMessageIDs :: "env \<Rightarrow> fsys \<Rightarrow> path \<Rightarrow> string option list" where
  "sessionMessageIDs e w messageDir =
     (case readdir w messageDir of
        None \<Rightarrow> []
      | Some messageFiles \<Rightarrow>
          concat (map (\<lambda>file.
            if \<not> endsWith file ''.json'' then []
            else (case readJsonFile (parseMessage e) w (messageDir @ [file]) of
                    None \<Rightarrow> []
                  | Some message \<Rightarrow> [Message.id message]))
            messageFiles))"

text \<open>
  One counted removal, \<^verbatim>\<open>if (await safeRm(p, opts)) filesDeleted++\<close>, on the pair of the
  counter and the disk.
\<close>

definition rmCounted :: "path \<Rightarrow> bool \<Rightarrow> nat \<times> fsys \<Rightarrow> nat \<times> fsys" where
  "rmCounted p recursive st =
     (case safeRm (snd st) p recursive of
        (ok, w') \<Rightarrow> (if ok then fst st + 1 else fst st, w'))"

text \<open>
  Step 2, the loop over the message ids. \<open>join(PART_DIR, messageID)\<close> throws for an id
  that is not a string; \<open>Inl\<close> carries the error with the counter and the disk at that
  moment.
\<close>

fun rmParts ::
  "env \<Rightarrow> string option list \<Rightarrow> nat \<times> fsys \<Rightarrow> (js_error \<times> nat \<times> fsys) + (nat \<times> fsys)" where
  "rmParts e [] st = Inr st"
| "rmParts e (messageID # rest) st =
     (case path_join (PART_DIR e) messageID of
        Inl err \<Rightarrow> Inl (err, st)
      | Inr partDir \<Rightarrow> rmParts e rest (rmCounted partDir True st))"

text \<open>
  The \<open>catch\<close> block of \<open>deleteSession\<close>, with the counter and the disk as they are when
  the error is caught.
\<close>

definition deleteSessionCatch ::
  "SessionInfo \<Rightarrow> js_error \<Rightarrow> nat \<times> fsys \<Rightarrow> DeleteSessionResult \<times> fsys" where
  "deleteSessionCatch session err st =
     (\<lparr> success = False,
        sessionID = Session.id session,
        filesDeleted = fst st,
        bytesFreed = 0,
        error = Some (errorMessage err) \<rparr>,
      snd st)"

text \<open>
  In the \<open>try\<close> block the listing has its own \<open>catch\<close>, and \<open>readJsonFile\<close> and
  \<open>safeRm\<close> catch their errors: no I/O error reaches the outer \<open>catch\<close>. The calls of
  \<open>path.join\<close> on the session id, on a message id and on the project id do when the
  value is not a string.
\<close>

definition deleteSession :: "env \<Rightarrow> fsys \<Rightarrow> SessionInfo \<Rightarrow> DeleteSessionResult \<times> fsys" where
  "deleteSession e w session =
     (case path_join (MESSAGE_DIR e) (Session.id session) of
        Inl err \<Rightarrow> deleteSessionCatch session err (0, w)
      | Inr messageDir \<Rightarrow>
          (let messageIDs = sessionMessageIDs e w messageDir in
           case rmParts e messageIDs (0, w) of
             Inl (err, st) \<Rightarrow> deleteSessionCatch session err st
           | Inr st1 \<Rightarrow>
               (let st2 = rmCounted messageDir True st1;
                    diffPath = SESSION_DIFF_DIR e @ [String_of (Session.id session) @ ''.json''];
                    st3 = rmCounted diffPath False st2;
                    todoPath = TODO_DIR e @ [String_of (Session.id session) @ ''.json''];
                    st4 = rmCounted todoPath False st3
                in case path_join (SESSION_DIR e) (projectID session) of
                     Inl err \<Rightarrow> deleteSessionCatch session err st4
                   | Inr projectSessionDir \<Rightarrow>
                       (let sessionPath =
                              projectSessionDir @ [String_of (Session.id session) @ ''.json''];
                            st5 = rmCounted sessionPath False st4
                        in (\<lparr> success = True,
                               sessionID = Session.id session,
                               filesDeleted = fst st5,
                               bytesFreed = SessionInfo.sizeBytes session,
                               error = None \<rparr>,
                            snd st5)))))"

fun deleteSessions ::
  "env \<Rightarrow> fsys \<Rightarrow> SessionInfo list \<Rightarrow> DeleteSessionResult list \<times> fsys" where
  "deleteSessions e w [] = ([], w)"
| "deleteSessions e w (session # rest) =
     (case deleteSession e w session of
        (r, w') \<Rightarrow> (case deleteSessions e w' rest of (rs, w'') \<Rightarrow> (r # rs, w'')))"

text \<open>
  The frequency log. \<open>frecencyStep\<close> is the body of the loop over the lines: an empty
  line is skipped; a line whose entry cannot be read (\<open>JSON.parse\<close> or the access to
  its path throws) is kept.
\<close>

definition frecencyStep ::
  "env \<Rightarrow> string \<Rightarrow> string \<Rightarrow> string list \<times> nat \<Rightarrow> string list \<times> nat" where
  "frecencyStep e dir line st =
     (if line = [] then st
      else (case parseEntry e line of
              Some entry \<Rightarrow>
                if \<not> startsWith (FrecencyEntry.path entry) dir then (fst st @ [line], snd st)
                else (fst st, snd st + 1)
            | None \<Rightarrow> (fst st @ [line], snd st)))"

definition cleanFrecencyForDirectory :: "env \<Rightarrow> fsys \<Rightarrow> string \<Rightarrow> nat \<times> fsys" where
  "cleanFrecencyForDirectory e w dir =
     (case readFile w (FRECENCY_FILE e) of
        None \<Rightarrow> (0, w)
      | Some content \<Rightarrow>
          (let lines = split_on LF (trim content);
               st = fold (frecencyStep e dir) lines ([], 0);
               filteredLines = fst st;
               removedCount = snd st
           in case writeFile w (FRECENCY_FILE e) (join_with [LF] filteredLines @ [LF]) of
                None \<Rightarrow> (0, w)
              | Some w' \<Rightarrow> (removedCount, w')))"

record DeleteLogResult =
  success :: bool
  filename :: string
  bytesFreed :: nat
  error :: "string option"


definition getProjectSessionCount :: "env \<Rightarrow> fsys \<Rightarrow> string \<Rightarrow> nat" where
  "getProjectSessionCount e w pid =
     (case readdir w (SESSION_DIR e @ [pid]) of
        None \<Rightarrow> 0
      | Some files \<Rightarrow> length (filter (\<lambda>f. endsWith f ''.json'') files))"

definition cleanupEmptyProject :: "env \<Rightarrow> fsys \<Rightarrow> string \<Rightarrow> string \<Rightarrow> bool \<times> fsys" where
  "cleanupEmptyProject e w pid wt =
     (let remainingCount = getProjectSessionCount e w pid in
      if remainingCount = 0 then
        (let w1 = snd (safeRm w (PROJECT_DIR e @ [pid @ ''.json'']) False);
             w2 = snd (safeRm w1 (SESSION_DIR e @ [pid]) True);
             w3 = snd (safeRm w2 (SNAPSHOT_DIR e @ [pid]) True);
             w4 = snd (cleanFrecencyForDirectory e w3 wt)
         in (True, w4))
      else (False, w))"

section \<open>Vocabulary of the specification\<close>

text \<open>
  \<open>absent\<close>: nothing is on the disk at the path. \<open>missing\<close>: nothing is there and the
  path does not run through a regular file, which is the error \<open>ENOENT\<close>. \<open>rmFails\<close>: a
  forced \<open>rm\<close> of the path ends with an I/O error. \<open>sizeOfDir\<close> is the recursive size of
  a directory and \<open>sizeOfFile\<close> the size of a regular file, each 0 when there is none.
  \<open>sizeOfEntry\<close> is the size \<open>stat\<close> reports for whatever is at the path: the length of a
  regular file, the own size of a directory, 0 when nothing is there.
\<close>

definition absent :: "fsys \<Rightarrow> path \<Rightarrow> bool" where
  "absent w p = (lookup (root w) p = None)"

definition missing :: "fsys \<Rightarrow> path \<Rightarrow> bool" where
  "missing w p = (absent w p \<and> \<not> belowFile (root w) p)"

definition rmFails :: "fsys \<Rightarrow> path \<Rightarrow> bool \<Rightarrow> bool" where
  "rmFails w p recursive = isl (rm w p True recursive)"




text \<open>
  The messages of a session: the records read from the \<open>.json\<close> files of the message
  directory named by the session id, in listing order. \<open>messageIDsFound\<close> are the message
  ids found there: the ids of those records that have one.
\<close>

definition messagesOf :: "env \<Rightarrow> fsys \<Rightarrow> string \<Rightarrow> Message list" where
  "messagesOf e w sid =
     (case readdir w (MESSAGE_DIR e @ [sid]) of
        None \<Rightarrow> []
      | Some files \<Rightarrow>
          List.map_filter (\<lambda>file.
            if endsWith file ''.json''
            then readJsonFile (parseMessage e) w (MESSAGE_DIR e @ [sid, file]) else None) files)"





definition indep :: "path \<Rightarrow> path \<Rightarrow> bool" where
  "indep p q = (p = q \<or> (\<not> prefix p q \<and> \<not> prefix q p))"

text \<open>
  \<open>typedIDs\<close>: the session has a string id and a string project id, and so has every
  message record read from its message directory. \<open>stepsDone\<close> are the removals
  \<open>deleteSession\<close> gets to, in order: all the targets for a session with \<open>typedIDs\<close>, and
  otherwise the targets before the first one whose path cannot be joined. (\<open>leading\<close> are
  the strings at the head of a list, up to the first value that is none.)
\<close>

fun leading :: "string option list \<Rightarrow> string list" where
  "leading [] = []"
| "leading (None # _) = []"
| "leading (Some x # xs) = x # leading xs"

definition typedIDs :: "env \<Rightarrow> fsys \<Rightarrow> SessionInfo \<Rightarrow> bool" where
  "typedIDs e w s =
     (case Session.id s of
        None \<Rightarrow> False
      | Some sid \<Rightarrow>
          projectID s \<noteq> None \<and> list_all (\<lambda>m. Message.id m \<noteq> None) (messagesOf e w sid))"

definition stepsDone :: "env \<Rightarrow> fsys \<Rightarrow> SessionInfo \<Rightarrow> (path \<times> bool) list" where
  "stepsDone e w s =
     (case Session.id s of
        None \<Rightarrow> []
      | Some sid \<Rightarrow>
          map (\<lambda>i. (PART_DIR e @ [i], True)) (leading (map Message.id (messagesOf e w sid)))
          @ (if list_all (\<lambda>m. Message.id m \<noteq> None) (messagesOf e w sid)
             then [(MESSAGE_DIR e @ [sid], True),
                   (SESSION_DIFF_DIR e @ [sid @ ''.json''], False),
                   (TODO_DIR e @ [sid @ ''.json''], False)]
                  @ (case projectID s of
                       None \<Rightarrow> []
                     | Some pid \<Rightarrow> [(SESSION_DIR e @ [pid, sid @ ''.json''], False)])
             else []))"

text \<open>
  The frequency log. \<open>logLines\<close> are the lines the rewrite works on: the non-empty
  lines of the content with the white space at both ends trimmed. \<open>keepLine\<close>: the line
  cannot be read as an entry, or the path of its entry does not start with the prefix.
  \<open>unlines\<close> is a log written line by line, each line ended by a newline;
  \<open>plainLines\<close> says that the lines are non-empty, hold no newline, and that the log
  neither starts nor ends with white space apart from the final newline.
\<close>

definition logLines :: "string \<Rightarrow> string list" where
  "logLines content = filter (\<lambda>l. l \<noteq> []) (split_on LF (trim content))"

definition keepLine :: "env \<Rightarrow> string \<Rightarrow> string \<Rightarrow> bool" where
  "keepLine e dir line =
     (case parseEntry e line of
        None \<Rightarrow> True
      | Some entry \<Rightarrow> \<not> startsWith (FrecencyEntry.path entry) dir)"

definition plainLines :: "string list \<Rightarrow> bool" where
  "plainLines ls =
     (ls \<noteq> [] \<and> (\<forall>l \<in> set ls. l \<noteq> [] \<and> LF \<notin> set l) \<and>
      \<not> isSpace (hd (hd ls)) \<and> \<not> isSpace (last (last ls)))"

definition unlines :: "string list \<Rightarrow> string" where
  "unlines ls = concat (map (\<lambda>l. l @ [LF]) ls)"

text \<open>
  The session files of a project that are on the disk now: the names ending in
  \<open>.json\<close> that the session directory of the project lists.
\<close>

definition liveSessionFiles :: "env \<Rightarrow> fsys \<Rightarrow> string \<Rightarrow> string list" where
  "liveSessionFiles e w pid =
     (case readdir w (SESSION_DIR e @ [pid]) of
        None \<Rightarrow> []
      | Some files \<Rightarrow> filter (\<lambda>f. endsWith f ''.json'') files)"




section \<open>Example disks\<close>


definition exEmptyDisk :: fsys where
  "exEmptyDisk = \<lparr> root = Dir 4096 [(''home'', Dir 4096 [])], denied = {} \<rparr>"

text \<open>
  A store with two sessions of project \<open>p1\<close> and one session of a project \<open>p2\<close> that
  has no record. Session \<open>s1\<close> has one message with a part directory, a diff file and a
  todo file; the directory of \<open>s2\<close> is gone. The environment reads each text below as
  the record next to it; the text \<^verbatim>\<open>{}\<close> is a message record without an id.
  \<open>nest p n\<close> puts the node \<open>n\<close> at the path \<open>p\<close>.
\<close>

fun nest :: "path \<Rightarrow> node \<Rightarrow> node" where
  "nest [] n = n"
| "nest (x # xs) n = Dir 4096 [(x, nest xs n)]"

definition txtS1 :: string where
  \<open>txtS1 = ''{"id":"s1","slug":"a","version":"1","projectID":"p1","directory":"/home/u/proj","time":{"created":1,"updated":5}}''\<close>

definition txtS2 :: string where
  \<open>txtS2 = ''{"id":"s2","slug":"b","version":"1","projectID":"p1","directory":"/home/u/gone","time":{"created":2,"updated":7}}''\<close>

definition txtS3 :: string where
  \<open>txtS3 = ''{"id":"s3","slug":"c","version":"1","projectID":"p2","directory":"/home/u/proj","time":{"created":3,"updated":6}}''\<close>

definition txtM1 :: string where
  \<open>txtM1 = ''{"id":"m1","sessionID":"s1","role":"user","time":{"created":1}}''\<close>

definition txtM0 :: string where
  \<open>txtM0 = ''{}''\<close>

definition txtP1 :: string where
  \<open>txtP1 = ''{"id":"p1","worktree":"/home/u/proj","time":{"created":1,"updated":4}}''\<close>

definition txtE1 :: string where
  \<open>txtE1 = ''{"path":"/a/b","frequency":1,"lastOpen":0}''\<close>

definition txtE2 :: string where
  \<open>txtE2 = ''{"path":"/c","frequency":2,"lastOpen":0}''\<close>

definition recS1 :: Session where
  "recS1 = \<lparr> Session.id = Some ''s1'', slug = ''a'', version = ''1'', projectID = Some ''p1'',
     directory = ''/home/u/proj'', parentID = None, title = None,
     Session.time = \<lparr> SessionTime.created = 1, SessionTime.updated = 5 \<rparr> \<rparr>"

definition recS2 :: Session where
  "recS2 = \<lparr> Session.id = Some ''s2'', slug = ''b'', version = ''1'', projectID = Some ''p1'',
     directory = ''/home/u/gone'', parentID = None, title = None,
     Session.time = \<lparr> SessionTime.created = 2, SessionTime.updated = 7 \<rparr> \<rparr>"

definition recS3 :: Session where
  "recS3 = \<lparr> Session.id = Some ''s3'', slug = ''c'', version = ''1'', projectID = Some ''p2'',
     directory = ''/home/u/proj'', parentID = None, title = None,
     Session.time = \<lparr> SessionTime.created = 3, SessionTime.updated = 6 \<rparr> \<rparr>"

definition recM1 :: Message where
  "recM1 = \<lparr> Message.id = Some ''m1'', sessionID = ''s1'', role = ''user'',
     Message.time = \<lparr> MessageTime.created = 1, completed = None \<rparr> \<rparr>"

definition recM0 :: Message where
  "recM0 = \<lparr> Message.id = None, sessionID = [], role = [],
     Message.time = \<lparr> MessageTime.created = 0, completed = None \<rparr> \<rparr>"

definition recP1 :: Project where
  "recP1 = \<lparr> Project.id = Some ''p1'', worktree = ''/home/u/proj'', vcs = None, sandboxes = None,
     Project.time = \<lparr> ProjectTime.created = 1, ProjectTime.updated = 4 \<rparr> \<rparr>"

definition exEnv :: env where
  "exEnv =
     \<lparr> HOME = [''home'', ''u''],
       parseSession = map_of [(txtS1, recS1), (txtS2, recS2), (txtS3, recS3)],
       parseMessage = map_of [(txtM1, recM1), (txtM0, recM0)],
       parseProject = map_of [(txtP1, recP1)],
       parseEntry =
         map_of [(txtE1, \<lparr> FrecencyEntry.path = ''/a/b'', frequency = 1, lastOpen = 0 \<rparr>),
                 (txtE2, \<lparr> FrecencyEntry.path = ''/c'', frequency = 2, lastOpen = 0 \<rparr>)],
       dateOf = map_of [(''2026-01-17T07:12:31'', 1768633951000),
                        (''2026-01-18T07:12:31'', 1768720351000)] \<rparr>"

definition exStorage :: node where
  "exStorage = Dir 4096
     [(''session'', Dir 4096
         [(''p1'', Dir 4096 [(''s1.json'', File txtS1), (''s2.json'', File txtS2)]),
          (''p2'', Dir 4096 [(''s3.json'', File txtS3)])]),
      (''message'', Dir 4096 [(''s1'', Dir 4096 [(''m1.json'', File txtM1)])]),
      (''part'', Dir 4096
         [(''m1'', Dir 4096
            [(''a.json'', File ''abcde''), (''sub'', Dir 4096 [(''b.json'', File ''xyz'')])])]),
      (''project'', Dir 4096 [(''p1.json'', File txtP1)]),
      (''session_diff'', Dir 4096 [(''s1.json'', File ''[]'')]),
      (''todo'', Dir 4096 [(''s1.json'', File ''[1]'')])]"

definition exDisk :: fsys where
  "exDisk =
     \<lparr> root = Dir 4096 [(''home'', Dir 4096 [(''u'', Dir 4096
         [(''.local'', Dir 4096
             [(''share'', Dir 4096 [(''opencode'', Dir 4096 [(''storage'', exStorage)])])]),
          (''proj'', Dir 4096 [])])])],
       denied = {} \<rparr>"

definition exProjects :: "(string option \<times> Project) list" where
  "exProjects = [(Some ''p1'', recP1)]"

definition exS1 :: SessionInfo where
  "exS1 = Session.extend recS1 (SessionInfo.fields 189 1 False ''/home/u/proj'')"

definition exS2 :: SessionInfo where
  "exS2 = Session.extend recS2 (SessionInfo.fields 113 0 True ''/home/u/proj'')"

definition exS3 :: SessionInfo where
  "exS3 = Session.extend recS3 (SessionInfo.fields 113 0 False ''/'')"

definition exSessions :: "SessionInfo list" where
  "exSessions = [exS2, exS3, exS1]"

text \<open>
  A second project map with a project \<open>p0\<close> that has no session, and the project
  entries the loader builds for \<open>p1\<close> and for the unrecorded \<open>p2\<close>.
\<close>

definition recP0 :: Project where
  "recP0 = \<lparr> Project.id = Some ''p0'', worktree = ''/home/u/proj'', vcs = None, sandboxes = None,
     Project.time = \<lparr> ProjectTime.created = 1, ProjectTime.updated = 2 \<rparr> \<rparr>"

definition exProjects2 :: "(string option \<times> Project) list" where
  "exProjects2 = [(Some ''p1'', recP1), (Some ''p0'', recP0)]"

definition exInfoP1 :: ProjectInfo where
  "exInfoP1 = Project.extend recP1 (ProjectInfo.fields 2 302 False [exS2, exS1])"

definition exInfoP2 :: ProjectInfo where
  "exInfoP2 =
     \<lparr> Project.id = Some ''p2'', worktree = ''/home/u/proj'', vcs = None, sandboxes = None,
       Project.time = \<lparr> ProjectTime.created = 3, ProjectTime.updated = 6 \<rparr>,
       sessionCount = 1, totalSizeBytes = 113, ProjectInfo.isOrphan = True,
       ProjectInfo.sessions = [exS3] \<rparr>"


text \<open>
  A disk that holds only the frequency log with a given content, and a log whose first
  line starts with a blank and cannot be read, followed by an empty line and an entry.
\<close>

definition frecDisk :: "string \<Rightarrow> fsys" where
  "frecDisk content = \<lparr> root = nest (FRECENCY_FILE exEnv) (File content), denied = {} \<rparr>"

definition exBadLog :: string where
  \<open>exBadLog = '' {bad'' @ [LF] @ [LF] @ txtE2 @ [LF]\<close>

text \<open>
  A project directory with three session files, and a store whose project \<open>p1\<close> has a
  record, a session directory without session files, a snapshot directory and a frequency
  log of the two entries.
\<close>

definition txtS4 :: string where
  \<open>txtS4 = ''{"id":"s4","slug":"d","version":"1","projectID":"p1","directory":"/home/u/proj","time":{"created":4,"updated":8}}''\<close>

definition exDisk3 :: fsys where
  "exDisk3 =
     \<lparr> root = nest (SESSION_DIR exEnv @ [''p1''])
         (Dir 4096 [(''s1.json'', File txtS1), (''s2.json'', File txtS2),
                    (''s4.json'', File txtS4)]),
       denied = {} \<rparr>"

definition exDisk4 :: fsys where
  "exDisk4 =
     \<lparr> root = nest [''home'', ''u'', ''.local'']
         (Dir 4096
            [(''share'', Dir 4096 [(''opencode'', Dir 4096
                [(''storage'', Dir 4096
                    [(''project'', Dir 4096 [(''p1.json'', File txtP1)]),
                     (''session'', Dir 4096 [(''p1'', Dir 4096 [(''notes.txt'', File ''n'')])])]),
                 (''snapshot'', Dir 4096 [(''p1'', Dir 4096 [(''pack'', File ''0000'')])])])]),
             (''state'', Dir 4096 [(''opencode'', Dir 4096
                [(''frecency.jsonl'', File (unlines [txtE1, txtE2]))])])]),
       denied = {} \<rparr>"











section \<open>Properties of the file system\<close>

lemma lookup_append:
  "lookup n (p @ q) = (case lookup n p of None \<Rightarrow> None | Some m \<Rightarrow> lookup m q)"
  by (induction p arbitrary: n) (auto split: node.splits option.splits)

lemma map_of_filter_fst:
  "map_of (filter (\<lambda>e. fst e \<noteq> x) es) y = (if y = x then None else map_of es y)"
  by (induction es) auto

lemma map_of_map_at:
  "map_of (map (\<lambda>e. if fst e = x then (fst e, f (snd e)) else e) es) y =
     (if y = x then map_option f (map_of es x) else map_of es y)"
  by (induction es) auto

text \<open>
  Removing the node at \<open>p\<close> empties every path below \<open>p\<close> and leaves every other path
  that is not an ancestor of \<open>p\<close> as it was.
\<close>

lemma lookup_remove:
  "p \<noteq> [] \<Longrightarrow> \<not> strict_prefix q p \<Longrightarrow>
   lookup (remove p t) q = (if prefix p q then None else lookup t q)"
proof (induction p arbitrary: t q)
  case Nil
  then show ?case by simp
next
  case (Cons x xs)
  show ?case
  proof (cases q)
    case Nil
    then show ?thesis using Cons.prems by simp
  next
    case q: (Cons y ys)
    show ?thesis
    proof (cases t)
      case (File c)
      then show ?thesis using q by simp
    next
      case (Dir d es)
      show ?thesis
      proof (cases "xs = []")
        case True
        then show ?thesis using q Dir by (simp add: map_of_filter_fst)
      next
        case False
        have np: "\<not> strict_prefix ys xs" if "y = x"
          using Cons.prems(2) q that by (simp add: strict_prefix_def)
        show ?thesis
        proof (cases "y = x")
          case True
          then show ?thesis
            using False q Dir Cons.IH[OF False np[OF True]]
            by (simp add: map_of_map_at split: option.splits)
        next
          case ne: False
          then show ?thesis using False q Dir by (simp add: map_of_map_at)
        qed
      qed
    qed
  qed
qed

lemma lookup_remove_None:
  "lookup t q = None \<Longrightarrow> lookup (remove p t) q = None"
proof (induction p arbitrary: t q)
  case Nil
  then show ?case by simp
next
  case (Cons x xs)
  show ?case
  proof (cases q)
    case Nil
    then show ?thesis using Cons.prems by simp
  next
    case q: (Cons y ys)
    show ?thesis
    proof (cases t)
      case (File c)
      then show ?thesis using q by simp
    next
      case (Dir d es)
      then show ?thesis using q Cons
        by (auto simp: map_of_filter_fst map_of_map_at split: option.splits)
    qed
  qed
qed

text \<open>
  Removing the node at \<open>p\<close> does not change whether a path runs through a regular file,
  except for the paths strictly below \<open>p\<close>.
\<close>

lemma belowFile_remove:
  "\<not> strict_prefix p q \<Longrightarrow> belowFile (remove p t) q = belowFile t q"
proof (induction p arbitrary: t q)
  case Nil
  then show ?case by simp
next
  case (Cons x xs)
  show ?case
  proof (cases q)
    case Nil
    then show ?thesis by simp
  next
    case q: (Cons y ys)
    show ?thesis
    proof (cases t)
      case (File c)
      then show ?thesis using q by simp
    next
      case (Dir d es)
      show ?thesis
      proof (cases "y = x")
        case ne: False
        then show ?thesis using q Dir by (simp add: map_of_filter_fst map_of_map_at)
      next
        case True
        show ?thesis
        proof (cases "xs = []")
          case e: True
          then have "ys = []" using Cons.prems q True by (simp add: strict_prefix_def)
          then show ?thesis using q Dir True e
            by (simp add: map_of_filter_fst split: option.splits)
        next
          case False
          have "\<not> strict_prefix xs ys"
            using Cons.prems q True by (simp add: strict_prefix_def)
          from Cons.IH[OF this] show ?thesis using q Dir True False
            by (simp add: map_of_map_at split: option.splits)
        qed
      qed
    qed
  qed
qed



text \<open>What a forced, caught removal does to the disk.\<close>

lemma safeRm_fst: "fst (safeRm w p r) = (\<not> rmFails w p r)"
  by (simp add: safeRm_def rmFails_def split: sum.splits)

lemma safeRm_denied: "denied (snd (safeRm w p r)) = denied w"
  by (auto simp: safeRm_def rm_def split: sum.splits option.splits node.splits if_splits)

lemma safeRm_fails: "rmFails w p r \<Longrightarrow> snd (safeRm w p r) = w"
  by (auto simp: safeRm_def rmFails_def split: sum.splits)

lemma safeRm_absent: "\<not> rmFails w p r \<Longrightarrow> absent (snd (safeRm w p r)) p"
  by (auto simp: safeRm_def rmFails_def rm_def absent_def lookup_remove
      split: sum.splits option.splits node.splits if_splits)

lemma safeRm_other:
  "\<not> prefix p q \<Longrightarrow> \<not> strict_prefix q p \<Longrightarrow>
   lookup (root (snd (safeRm w p r))) q = lookup (root w) q"
  by (auto simp: safeRm_def rm_def lookup_remove
      split: sum.splits option.splits node.splits if_splits)

lemma safeRm_keeps_absent: "absent w q \<Longrightarrow> absent (snd (safeRm w p r)) q"
  by (auto simp: safeRm_def rm_def absent_def lookup_remove_None
      split: sum.splits option.splits node.splits if_splits)

lemma safeRm_belowFile:
  "\<not> strict_prefix p q \<Longrightarrow>
   belowFile (root (snd (safeRm w p r))) q = belowFile (root w) q"
  by (auto simp: safeRm_def rm_def belowFile_remove
      split: sum.splits option.splits node.splits if_splits)

lemma safeRm_missing: "\<not> rmFails w p r \<Longrightarrow> missing (snd (safeRm w p r)) p"
  using safeRm_absent[of w p r] safeRm_belowFile[of p p w r]
  by (auto simp: missing_def rmFails_def rm_def split: if_splits)


lemma lookup_snoc:
  "lookup r (q @ [x]) = (case lookup r q of Some (Dir d es) \<Rightarrow> map_of es x | _ \<Rightarrow> None)"
  by (simp add: lookup_append split: option.splits node.splits)

lemma stat_listed:
  "readdirTypes w p = Some entries \<Longrightarrow> entry \<in> set entries \<Longrightarrow>
   stat w (p @ [name entry]) \<noteq> None"
  by (auto simp: readdirTypes_def stat_def lookup_snoc dirent_def weak_map_of_SomeI
      split: option.splits node.splits dest!: map_of_eq_None_iff[THEN iffD1])














lemma extend_sel:
  "Session.truncate (Session.extend session (SessionInfo.fields a b c d)) = session"
  "Session.id (Session.extend session (SessionInfo.fields a b c d)) = Session.id session"
  "projectID (Session.extend session (SessionInfo.fields a b c d)) = projectID session"
  "directory (Session.extend session (SessionInfo.fields a b c d)) = directory session"
  "Session.time (Session.extend session (SessionInfo.fields a b c d)) = Session.time session"
  "SessionInfo.sizeBytes (Session.extend session (SessionInfo.fields a b c d)) = a"
  "messageCount (Session.extend session (SessionInfo.fields a b c d)) = b"
  "SessionInfo.isOrphan (Session.extend session (SessionInfo.fields a b c d)) = c"
  "projectWorktree (Session.extend session (SessionInfo.fields a b c d)) = d"
  by (simp_all add: Session.defs SessionInfo.defs)

text \<open>Evaluation of the example store.\<close>

lemmas config_defs = OPENCODE_STATE_DIR_def OPENCODE_SHARE_DIR_def FRECENCY_FILE_def
  STORAGE_DIR_def SESSION_DIR_def MESSAGE_DIR_def PART_DIR_def PROJECT_DIR_def
  SESSION_DIFF_DIR_def TODO_DIR_def SNAPSHOT_DIR_def LOG_DIR_def

lemmas storage_dirs = SESSION_DIR_def MESSAGE_DIR_def PART_DIR_def PROJECT_DIR_def
  SESSION_DIFF_DIR_def TODO_DIR_def


lemmas rec_defs = recS1_def recS2_def recS3_def recM1_def recM0_def recP1_def





lemma ex_exists:
  "existsSync exDisk ''/home/u/proj''" "\<not> existsSync exDisk ''/home/u/gone''"
  by (simp_all add: existsSync_def path_of_def exDisk_def)




text \<open>
  Grouping: the groups have distinct keys, and the group of a key holds exactly the sessions
  with that project id, in order.
\<close>

lemma groupSessions_snoc:
  "groupSessions (ss @ [s]) =
     AList.update (projectID s)
       ((case map_of (groupSessions ss) (projectID s) of None \<Rightarrow> [] | Some l \<Rightarrow> l) @ [s])
       (groupSessions ss)"
  by (simp add: groupSessions_def Let_def)

lemma groupSessions_map_of:
  "map_of (groupSessions ss) k =
     (if k \<in> projectID ` set ss then Some (filter (\<lambda>s. projectID s = k) ss) else None)"
proof (induction ss rule: rev_induct)
  case Nil
  then show ?case by (simp add: groupSessions_def)
next
  case (snoc s ss)
  show ?case
  proof (cases "k = projectID s")
    case True
    have "filter (\<lambda>t. projectID t = projectID s) ss = []" if "projectID s \<notin> projectID ` set ss"
      using that by (auto simp: filter_empty_conv image_iff dest: sym)
    then show ?thesis using True snoc
      by (auto simp: groupSessions_snoc update_conv')
  next
    case False
    then show ?thesis using snoc by (auto simp: groupSessions_snoc update_conv')
  qed
qed

lemma groupSessions_distinct: "distinct (map fst (groupSessions ss))"
  by (induction ss rule: rev_induct)
    (simp_all add: groupSessions_def Let_def distinct_update)

lemma groupSessions_elem:
  "(k, l) \<in> set (groupSessions ss) \<longleftrightarrow>
     k \<in> projectID ` set ss \<and> l = filter (\<lambda>s. projectID s = k) ss"
proof -
  have "(k, l) \<in> set (groupSessions ss) \<longleftrightarrow> map_of (groupSessions ss) k = Some l"
    using groupSessions_distinct by (simp add: map_of_eq_Some_iff)
  then show ?thesis by (auto simp: groupSessions_map_of)
qed

lemma groupSessions_nonempty: "(k, l) \<in> set (groupSessions ss) \<Longrightarrow> l \<noteq> []"
  by (auto simp: groupSessions_elem filter_empty_conv)

lemma totalSizeOf_sum: "totalSizeOf l = sum_list (map SessionInfo.sizeBytes l)"
proof -
  have "fold (\<lambda>s sum. sum + SessionInfo.sizeBytes s) l a = a + sum_list (map SessionInfo.sizeBytes l)"
    for a by (induction l arbitrary: a) simp_all
  then show ?thesis by (simp add: totalSizeOf_def)
qed

lemma pextend_sel:
  "Project.truncate (Project.extend p (ProjectInfo.fields a b c d)) = p"
  "Project.id (Project.extend p (ProjectInfo.fields a b c d)) = Project.id p"
  "worktree (Project.extend p (ProjectInfo.fields a b c d)) = worktree p"
  "Project.time (Project.extend p (ProjectInfo.fields a b c d)) = Project.time p"
  "sessionCount (Project.extend p (ProjectInfo.fields a b c d)) = a"
  "totalSizeBytes (Project.extend p (ProjectInfo.fields a b c d)) = b"
  "ProjectInfo.isOrphan (Project.extend p (ProjectInfo.fields a b c d)) = c"
  "ProjectInfo.sessions (Project.extend p (ProjectInfo.fields a b c d)) = d"
  by (simp_all add: Project.defs ProjectInfo.defs)

lemma group_sel:
  "ProjectInfo.sessions (projectInfoOfGroup w ps g) = snd g"
  "sessionCount (projectInfoOfGroup w ps g) = length (snd g)"
  "totalSizeBytes (projectInfoOfGroup w ps g) = totalSizeOf (snd g)"
  by (simp_all add: projectInfoOfGroup_def Let_def pextend_sel split: option.splits)

lemma empty_sel:
  "ProjectInfo.sessions (projectInfoEmpty w p) = []"
  "sessionCount (projectInfoEmpty w p) = 0"
  "totalSizeBytes (projectInfoEmpty w p) = 0"
  "Project.truncate (projectInfoEmpty w p) = p"
  "Project.id (projectInfoEmpty w p) = Project.id p"
  "worktree (projectInfoEmpty w p) = worktree p"
  "ProjectInfo.isOrphan (projectInfoEmpty w p) = (\<not> directoryExists w (worktree p))"
  by (simp_all add: projectInfoEmpty_def pextend_sel)

lemma loadProjectInfos_set:
  "set (loadProjectInfos w ss ps) =
     projectInfoOfGroup w ps ` set (groupSessions ss)
     \<union> (\<lambda>kv. projectInfoEmpty w (snd kv)) `
         {kv \<in> set ps. map_of (groupSessions ss) (fst kv) = None}"
  by (simp add: loadProjectInfos_def buildProjectInfos_def Let_def)

lemma count_key:
  "distinct (map fst al) \<Longrightarrow> k \<in> fst ` set al \<Longrightarrow> length (filter (\<lambda>e. fst e = k) al) = 1"
proof (induction al)
  case Nil
  then show ?case by simp
next
  case (Cons a al)
  show ?case
  proof (cases "fst a = k")
    case True
    then have "filter (\<lambda>e. fst e = k) al = []"
      using Cons.prems(1) by (auto simp: filter_empty_conv image_iff)
    then show ?thesis using True by simp
  next
    case False
    then show ?thesis using Cons by auto
  qed
qed

lemma group_of_session:
  assumes "s \<in> set ss" and "g \<in> set (groupSessions ss)"
  shows "s \<in> set (snd g) \<longleftrightarrow> fst g = projectID s"
proof -
  obtain k l where g: "g = (k, l)" by (cases g)
  with assms(2) have "l = filter (\<lambda>t. projectID t = k) ss" by (simp add: groupSessions_elem)
  then show ?thesis using assms(1) g by auto
qed





text \<open>The example project entries are among the loaded ones.\<close>

lemma exS_sel:
  "projectID exS1 = Some ''p1''" "projectID exS2 = Some ''p1''" "projectID exS3 = Some ''p2''"
  "SessionInfo.sizeBytes exS1 = 189" "SessionInfo.sizeBytes exS2 = 113"
  "SessionInfo.sizeBytes exS3 = 113"
  "directory exS1 = ''/home/u/proj''" "directory exS2 = ''/home/u/gone''"
  "directory exS3 = ''/home/u/proj''"
  "SessionInfo.isOrphan exS2"
  "SessionTime.created (Session.time exS3) = 3" "SessionTime.updated (Session.time exS3) = 6"
  by (simp_all add: exS1_def exS2_def exS3_def rec_defs extend_sel)

lemma exS_distinct: "exS1 \<noteq> exS2" "exS1 \<noteq> exS3" "exS2 \<noteq> exS3"
  by (auto simp: exS1_def exS2_def exS3_def rec_defs Session.defs SessionInfo.defs)

lemma exInfoP1_mem: "exInfoP1 \<in> set (loadProjectInfos exDisk exSessions ps)" if "map_of ps (Some ''p1'') = Some recP1" for ps
proof -
  have g: "(Some ''p1'', [exS2, exS1]) \<in> set (groupSessions exSessions)"
    by (simp add: groupSessions_elem exSessions_def exS_sel)
  have e: "projectInfoOfGroup exDisk ps (Some ''p1'', [exS2, exS1]) = exInfoP1"
    using that
    by (simp add: projectInfoOfGroup_def exInfoP1_def totalSizeOf_sum exS_sel
        directoryExists_def ex_exists recP1_def Project.defs ProjectInfo.defs)
  from imageI[OF g, of "projectInfoOfGroup exDisk ps"]
  show ?thesis
    unfolding loadProjectInfos_set e by (rule UnI1)
qed

lemma exInfoP2_mem: "exInfoP2 \<in> set (loadProjectInfos exDisk exSessions ps)" if "map_of ps (Some ''p2'') = None" for ps
proof -
  have g: "(Some ''p2'', [exS3]) \<in> set (groupSessions exSessions)"
    by (simp add: groupSessions_elem exSessions_def exS_sel)
  have e: "projectInfoOfGroup exDisk ps (Some ''p2'', [exS3]) = exInfoP2"
    using that
    by (simp add: projectInfoOfGroup_def exInfoP2_def totalSizeOf_sum exS_sel)
  from imageI[OF g, of "projectInfoOfGroup exDisk ps"]
  show ?thesis
    unfolding loadProjectInfos_set e by (rule UnI1)
qed

text \<open>
  A sequence of counted removals over independent targets: the counter grows by the number
  of removals that do not fail, and each of those targets is absent at the end.
\<close>

lemma rmCounted_eq:
  "rmCounted p r st =
     (if rmFails (snd st) p r then fst st else fst st + 1, snd (safeRm (snd st) p r))"
  using safeRm_fst[of "snd st" p r] by (cases "safeRm (snd st) p r") (simp add: rmCounted_def)

lemma rmFails_lookup:
  "lookup (root w') q = lookup (root w) q \<Longrightarrow> belowFile (root w') q = belowFile (root w) q \<Longrightarrow>
   denied w' = denied w \<Longrightarrow> rmFails w' q r = rmFails w q r"
  by (simp add: rmFails_def rm_def split: option.splits node.splits)

lemma rmFails_missing: "missing w q \<Longrightarrow> \<not> rmFails w q r"
  by (simp add: rmFails_def rm_def missing_def absent_def)


lemma rmFails_after:
  assumes "indep p q" and "p = q \<Longrightarrow> r = r'"
  shows "rmFails (snd (safeRm w p r)) q r' = rmFails w q r'"
proof (cases "p = q")
  case True
  show ?thesis
  proof (cases "rmFails w p r")
    case f: True
    then show ?thesis by (simp add: safeRm_fails)
  next
    case False
    then have "missing (snd (safeRm w p r)) q" using True by (simp add: safeRm_missing)
    then show ?thesis using False True assms(2) by (simp add: rmFails_missing)
  qed
next
  case False
  then have np: "\<not> prefix p q" "\<not> strict_prefix q p"
    using assms(1) by (auto simp: indep_def strict_prefix_def)
  then have l: "lookup (root (snd (safeRm w p r))) q = lookup (root w) q"
    by (rule safeRm_other)
  have "\<not> strict_prefix p q" using np(1) by (simp add: strict_prefix_def)
  then have b: "belowFile (root (snd (safeRm w p r))) q = belowFile (root w) q"
    by (rule safeRm_belowFile)
  show ?thesis by (rule rmFails_lookup[OF l b]) (rule safeRm_denied)
qed



text \<open>
  \<open>deleteSession\<close> as the sequence of the removals it gets to: it succeeds exactly for a
  session with \<open>typedIDs\<close>.
\<close>

lemma sessionMessageIDs_eq:
  "sessionMessageIDs e w (MESSAGE_DIR e @ [sid]) = map Message.id (messagesOf e w sid)"
proof -
  have "concat (map (\<lambda>file.
            if \<not> endsWith file ''.json'' then []
            else (case readJsonFile (parseMessage e) w ((MESSAGE_DIR e @ [sid]) @ [file]) of
                    None \<Rightarrow> []
                  | Some message \<Rightarrow> [Message.id message])) fs)
      = map Message.id (List.map_filter (\<lambda>file.
            if endsWith file ''.json''
            then readJsonFile (parseMessage e) w (MESSAGE_DIR e @ [sid, file]) else None) fs)"
    for fs
    by (induction fs) (auto simp: List.map_filter_simps split: option.splits)
  then show ?thesis
    by (simp add: sessionMessageIDs_def messagesOf_def split: option.splits)
qed

lemma rmParts_fold:
  "rmParts e mids st =
     (if list_all (\<lambda>m. m \<noteq> None) mids
      then Inr (fold (\<lambda>t. rmCounted (fst t) (snd t))
                  (map (\<lambda>i. (PART_DIR e @ [i], True)) (leading mids)) st)
      else Inl (TypeError, fold (\<lambda>t. rmCounted (fst t) (snd t))
                  (map (\<lambda>i. (PART_DIR e @ [i], True)) (leading mids)) st))"
proof (induction mids arbitrary: st)
  case Nil
  then show ?case by simp
next
  case (Cons m mids)
  show ?case
  proof (cases m)
    case None
    then show ?thesis by (simp add: path_join_def)
  next
    case (Some i)
    then show ?thesis using Cons.IH by (simp add: path_join_def)
  qed
qed

lemma list_all_ids:
  "list_all (\<lambda>m. \<exists>y. m = Some y) (map Message.id ms) =
   list_all (\<lambda>m. \<exists>y. Message.id m = Some y) ms"
  by (simp add: list_all_iff)

lemma deleteSession_steps:
  "deleteSession e w s =
     (\<lparr> DeleteSessionResult.success = typedIDs e w s,
        sessionID = Session.id s,
        filesDeleted = fst (fold (\<lambda>t. rmCounted (fst t) (snd t)) (stepsDone e w s) (0, w)),
        DeleteSessionResult.bytesFreed = (if typedIDs e w s then SessionInfo.sizeBytes s else 0),
        DeleteSessionResult.error =
          (if typedIDs e w s then None else Some (errorMessage TypeError)) \<rparr>,
      snd (fold (\<lambda>t. rmCounted (fst t) (snd t)) (stepsDone e w s) (0, w)))"
proof (cases "Session.id s")
  case None
  then show ?thesis
    by (simp add: deleteSession_def path_join_def deleteSessionCatch_def typedIDs_def
        stepsDone_def)
next
  case (Some sid)
  show ?thesis
  proof (cases "list_all (\<lambda>m. Message.id m \<noteq> None) (messagesOf e w sid)")
    case False
    then show ?thesis using Some
      by (simp add: deleteSession_def path_join_def deleteSessionCatch_def typedIDs_def
          stepsDone_def sessionMessageIDs_eq rmParts_fold list_all_ids Let_def)
  next
    case True
    show ?thesis
    proof (cases "projectID s")
      case None
      then show ?thesis using Some True
        by (simp add: deleteSession_def path_join_def deleteSessionCatch_def typedIDs_def
            stepsDone_def sessionMessageIDs_eq rmParts_fold list_all_ids Let_def String_of_def)
    next
      case pid: (Some pid)
      then show ?thesis using Some True
        by (simp add: deleteSession_def path_join_def deleteSessionCatch_def typedIDs_def
            stepsDone_def sessionMessageIDs_eq rmParts_fold list_all_ids Let_def String_of_def)
    qed
  qed
qed











lemma exS_id:
  "Session.id exS1 = Some ''s1''" "Session.id exS2 = Some ''s2''"
  "Session.id exS3 = Some ''s3''"
  by (simp_all add: exS1_def exS2_def exS3_def rec_defs extend_sel)











lemma storage_nonempty: "STORAGE_DIR e @ a # as \<noteq> []"
  by simp





text \<open>The rewrite of the frequency log as a filter of its lines.\<close>

lemma frecencyStep_eq:
  "frecencyStep e dir l st =
     (if l = [] then st
      else if keepLine e dir l then (fst st @ [l], snd st) else (fst st, snd st + 1))"
  by (simp add: frecencyStep_def keepLine_def split: option.splits)

lemma frecency_fold:
  "fold (frecencyStep e dir) ls st =
     (fst st @ filter (keepLine e dir) (filter (\<lambda>l. l \<noteq> []) ls),
      snd st + length (filter (\<lambda>l. \<not> keepLine e dir l) (filter (\<lambda>l. l \<noteq> []) ls)))"
proof (induction ls arbitrary: st)
  case Nil
  then show ?case by simp
next
  case (Cons l ls)
  show ?case
    by (simp only: fold_simps comp_apply Cons.IH) (simp add: frecencyStep_eq)
qed

lemma put_file:
  "lookup t p = Some (File c0) \<Longrightarrow> \<exists>t'. put p c t = Some t' \<and> lookup t' p = Some (File c)"
proof (induction p arbitrary: t)
  case Nil
  then show ?case by simp
next
  case (Cons x xs)
  then obtain d es ch where t: "t = Dir d es" and ch: "map_of es x = Some ch"
    and l: "lookup ch xs = Some (File c0)"
    by (cases t) (auto split: option.splits)
  from Cons.IH[OF l] obtain ch' where "put xs c ch = Some ch'" "lookup ch' xs = Some (File c)"
    by blast
  then show ?case using t ch by (simp add: update_conv')
qed

lemma put_keeps_absent:
  "lookup t p = Some (File c0) \<Longrightarrow> put p c t = Some t' \<Longrightarrow> lookup t q = None \<Longrightarrow>
   lookup t' q = None"
proof (induction p arbitrary: t t' q)
  case Nil
  then show ?case by (cases q) auto
next
  case (Cons x xs)
  from Cons.prems(1) obtain d es ch where t: "t = Dir d es" and ch: "map_of es x = Some ch"
    and l: "lookup ch xs = Some (File c0)"
    by (cases t) (auto split: option.splits)
  from Cons.prems(2) t ch obtain ch' where p: "put xs c ch = Some ch'"
    and t': "t' = Dir d (AList.update x ch' es)"
    by (auto split: option.splits)
  show ?case
  proof (cases q)
    case Nil
    then show ?thesis using Cons.prems(3) by simp
  next
    case q: (Cons y ys)
    show ?thesis
    proof (cases "y = x")
      case True
      then have "lookup ch ys = None" using Cons.prems(3) q t ch by simp
      from Cons.IH[OF l p this] show ?thesis using True q t' by (simp add: update_conv')
    next
      case False
      then show ?thesis using Cons.prems(3) q t t' by (simp add: update_conv')
    qed
  qed
qed

lemma cleanFrecency_missing:
  "readFile w (FRECENCY_FILE e) = None \<Longrightarrow> cleanFrecencyForDirectory e w dir = (0, w)"
  by (simp add: cleanFrecencyForDirectory_def)

lemma cleanFrecency_present:
  assumes "readFile w (FRECENCY_FILE e) = Some content"
  shows "fst (cleanFrecencyForDirectory e w dir) =
           length (filter (\<lambda>l. \<not> keepLine e dir l) (logLines content)) \<and>
         readFile (snd (cleanFrecencyForDirectory e w dir)) (FRECENCY_FILE e) =
           Some (join_with [LF] (filter (keepLine e dir) (logLines content)) @ [LF]) \<and>
         denied (snd (cleanFrecencyForDirectory e w dir)) = denied w \<and>
         (\<forall>q. absent w q \<longrightarrow> absent (snd (cleanFrecencyForDirectory e w dir)) q)"
proof -
  let ?new = "join_with [LF] (filter (keepLine e dir) (logLines content)) @ [LF]"
  from assms have f: "lookup (root w) (FRECENCY_FILE e) = Some (File content)"
    by (auto simp: readFile_def split: option.splits node.splits)
  from put_file[OF f, of ?new] obtain t' where
    p: "put (FRECENCY_FILE e) ?new (root w) = Some t'" and
    l: "lookup t' (FRECENCY_FILE e) = Some (File ?new)" by blast
  have c: "cleanFrecencyForDirectory e w dir =
      (length (filter (\<lambda>l. \<not> keepLine e dir l) (logLines content)), w\<lparr>root := t'\<rparr>)"
    using assms p by (simp add: cleanFrecencyForDirectory_def Let_def frecency_fold logLines_def
        writeFile_def)
  show ?thesis using l put_keeps_absent[OF f p]
    by (simp add: c readFile_def absent_def)
qed


lemma split_on_line: "c \<notin> set l \<Longrightarrow> split_on c (l @ c # rest) = l # split_on c rest"
  by (induction l) auto

lemma split_on_single: "c \<notin> set l \<Longrightarrow> split_on c l = [l]"
  by (induction l) auto

lemma split_on_join:
  "ls \<noteq> [] \<Longrightarrow> \<forall>l \<in> set ls. c \<notin> set l \<Longrightarrow> split_on c (join_with [c] ls) = ls"
proof (induction "[c]" ls rule: join_with.induct)
  case 1
  then show ?case by simp
next
  case (2 l)
  then show ?case by (simp add: split_on_single)
next
  case (3 l l' ls)
  then show ?case by (simp add: split_on_line)
qed

lemma unlines_join: "ls \<noteq> [] \<Longrightarrow> unlines ls = join_with [LF] ls @ [LF]"
proof (induction "[LF]" ls rule: join_with.induct)
  case 1
  then show ?case by simp
next
  case (2 l)
  then show ?case by (simp add: unlines_def)
next
  case (3 l l' ls)
  then show ?case by (simp add: unlines_def)
qed

lemma join_hd: "ls \<noteq> [] \<Longrightarrow> hd ls \<noteq> [] \<Longrightarrow> hd (join_with sep ls) = hd (hd ls)"
  by (induction sep ls rule: join_with.induct) simp_all

lemma join_nonempty_last: "ls \<noteq> [] \<Longrightarrow> last ls \<noteq> [] \<Longrightarrow> join_with sep ls \<noteq> []"
  by (induction sep ls rule: join_with.induct) simp_all

lemma join_last:
  "ls \<noteq> [] \<Longrightarrow> last ls \<noteq> [] \<Longrightarrow> last (join_with sep ls) = last (last ls)"
proof (induction sep ls rule: join_with.induct)
  case (1 sep)
  then show ?case by simp
next
  case (2 sep l)
  then show ?case by simp
next
  case (3 sep l l' ls)
  have "join_with sep (l' # ls) \<noteq> []"
    using "3.prems" by (intro join_nonempty_last) simp_all
  then show ?case using 3 by simp
qed

lemma join_nonempty: "ls \<noteq> [] \<Longrightarrow> hd ls \<noteq> [] \<Longrightarrow> join_with sep ls \<noteq> []"
  by (induction sep ls rule: join_with.induct) simp_all

lemma trim_line:
  assumes "xs \<noteq> []" "\<not> isSpace (hd xs)" "\<not> isSpace (last xs)"
  shows "trim (xs @ [LF]) = xs"
proof -
  have sp: "isSpace LF" by (simp add: isSpace_def LF_def)
  have a: "dropWhile isSpace (xs @ [LF]) = xs @ [LF]"
    using assms(1,2) by (cases xs) simp_all
  have b: "dropWhile isSpace (rev xs) = rev xs"
    using assms(1,3) by (cases "rev xs") (simp_all add: last_rev[symmetric] hd_rev)
  show ?thesis by (simp add: trim_def a sp b)
qed

lemma logLines_unlines: "plainLines ls \<Longrightarrow> logLines (unlines ls) = ls"
proof -
  assume p: "plainLines ls"
  then have ne: "ls \<noteq> []" and h: "hd ls \<noteq> []" and l: "last ls \<noteq> []"
    by (auto simp: plainLines_def)
  have "trim (unlines ls) = join_with [LF] ls"
    unfolding unlines_join[OF ne]
    using p by (intro trim_line) (simp_all add: join_nonempty join_hd join_last ne h l plainLines_def)
  moreover have "split_on LF (join_with [LF] ls) = ls"
    using p by (intro split_on_join) (auto simp: plainLines_def)
  moreover have "filter (\<lambda>l. l \<noteq> []) ls = ls"
    using p by (auto simp: plainLines_def filter_id_conv)
  ultimately show ?thesis by (simp add: logLines_def)
qed

text \<open>Evaluation of the frequency log examples.\<close>

lemma lookup_nest: "lookup (nest p n) p = Some n"
  by (induction p) simp_all

lemma frecDisk_read: "readFile (frecDisk c) (FRECENCY_FILE exEnv) = Some c"
  by (simp add: readFile_def frecDisk_def lookup_nest)

lemma ex_parseEntry:
  "parseEntry exEnv txtE1 = Some \<lparr> FrecencyEntry.path = ''/a/b'', frequency = 1, lastOpen = 0 \<rparr>"
  "parseEntry exEnv txtE2 = Some \<lparr> FrecencyEntry.path = ''/c'', frequency = 2, lastOpen = 0 \<rparr>"
  "parseEntry exEnv ''{bad'' = None" "parseEntry exEnv '' {bad'' = None"
  by (simp_all add: exEnv_def txtE1_def txtE2_def)

lemma ex_keepLine:
  "\<not> keepLine exEnv ''/a'' txtE1" "keepLine exEnv ''/a'' txtE2" "keepLine exEnv ''/a'' ''{bad''"
  by (simp_all add: keepLine_def ex_parseEntry startsWith_def)

lemma ex_plainLines: "plainLines [txtE1, txtE2]"
  by (simp add: plainLines_def txtE1_def txtE2_def LF_def isSpace_def)

lemma exBadLog_lines:
  "split_on LF exBadLog = ['' {bad'', [], txtE2, []]"
  "logLines exBadLog = [''{bad'', txtE2]"
  "split_on LF (''{bad'' @ [LF] @ txtE2 @ [LF]) = [''{bad'', txtE2, []]"
  by (simp_all add: exBadLog_def logLines_def trim_def isSpace_def LF_def txtE2_def)

lemma ex_frec_absent: "readFile exEmptyDisk (FRECENCY_FILE exEnv) = None"
  by (simp add: readFile_def exEmptyDisk_def config_defs exEnv_def)

text \<open>The cleanup of a project without session files.\<close>

lemma getProjectSessionCount_live:
  "getProjectSessionCount e w pid = length (liveSessionFiles e w pid)"
  by (simp add: getProjectSessionCount_def liveSessionFiles_def split: option.splits)

lemma listed_iff:
  "(\<exists>files. readdir w dir = Some files \<and> f \<in> set files) \<longleftrightarrow> \<not> absent w (dir @ [f])"
proof (cases "lookup (root w) dir")
  case None
  then show ?thesis by (simp add: readdir_def absent_def lookup_snoc)
next
  case (Some n)
  show ?thesis
  proof (cases n)
    case (File c)
    then show ?thesis using Some by (simp add: readdir_def absent_def lookup_snoc)
  next
    case (Dir d es)
    then show ?thesis using Some
      by (simp add: readdir_def absent_def lookup_snoc map_of_eq_None_iff)
  qed
qed

lemma liveSessionFiles_empty:
  "(liveSessionFiles e w pid = []) =
     (\<forall>f. endsWith f ''.json'' \<longrightarrow> absent w (SESSION_DIR e @ [pid, f]))"
proof -
  have "(liveSessionFiles e w pid \<noteq> []) =
      (\<exists>f. endsWith f ''.json'' \<and>
         (\<exists>files. readdir w (SESSION_DIR e @ [pid]) = Some files \<and> f \<in> set files))"
    by (auto simp: liveSessionFiles_def filter_empty_conv split: option.splits)
  also have "\<dots> = (\<exists>f. endsWith f ''.json'' \<and> \<not> absent w ((SESSION_DIR e @ [pid]) @ [f]))"
    unfolding listed_iff ..
  finally show ?thesis by auto
qed

lemma cleanFrecency_keeps_absent:
  "absent w q \<Longrightarrow> absent (snd (cleanFrecencyForDirectory e w dir)) q"
proof (cases "readFile w (FRECENCY_FILE e)")
  case None
  assume "absent w q"
  then show ?thesis using None by (simp add: cleanFrecency_missing)
next
  case (Some content)
  assume "absent w q"
  then show ?thesis using cleanFrecency_present[OF Some, of dir] by blast
qed

lemma safeRm_readFile:
  "\<not> prefix p q \<Longrightarrow> \<not> strict_prefix q p \<Longrightarrow>
   readFile (snd (safeRm w p r)) q = readFile w q"
  by (simp add: readFile_def safeRm_other)

lemma share_state:
  "\<not> prefix (OPENCODE_SHARE_DIR e @ a) (FRECENCY_FILE e)"
  "\<not> strict_prefix (FRECENCY_FILE e) (OPENCODE_SHARE_DIR e @ a)"
  by (auto simp: config_defs strict_prefix_def)

lemma cleanup_targets:
  "PROJECT_DIR e @ [a] = OPENCODE_SHARE_DIR e @ [''storage'', ''project'', a]"
  "SESSION_DIR e @ [a] = OPENCODE_SHARE_DIR e @ [''storage'', ''session'', a]"
  "SNAPSHOT_DIR e @ [a] = OPENCODE_SHARE_DIR e @ [''snapshot'', a]"
  by (simp_all add: config_defs)

lemma cleanup_indep:
  "indep (PROJECT_DIR e @ [a]) (SESSION_DIR e @ [b])"
  "indep (PROJECT_DIR e @ [a]) (SNAPSHOT_DIR e @ [b])"
  "indep (SESSION_DIR e @ [a]) (SNAPSHOT_DIR e @ [b])"
  by (simp_all add: cleanup_targets indep_def)

text \<open>
  Deleting sessions leaves the record file of every other session as it was.
\<close>

lemma rmAll_other:
  "\<forall>t \<in> set ts. \<not> prefix (fst t) q \<and> \<not> strict_prefix q (fst t) \<Longrightarrow>
   lookup (root (snd (fold (\<lambda>t. rmCounted (fst t) (snd t)) ts (n, w)))) q = lookup (root w) q"
proof (induction ts arbitrary: n w)
  case Nil
  then show ?case by simp
next
  case (Cons t ts)
  have a: "lookup (root (snd (safeRm w (fst t) (snd t)))) q = lookup (root w) q"
    using Cons.prems by (intro safeRm_other) simp_all
  have b: "\<forall>t \<in> set ts. \<not> prefix (fst t) q \<and> \<not> strict_prefix q (fst t)"
    using Cons.prems by simp
  show ?case using Cons.IH[OF b] a by (simp add: rmCounted_eq)
qed

lemma deleteSession_sibling:
  assumes "\<forall>sid. Session.id s = Some sid \<longrightarrow> f \<noteq> sid @ ''.json''"
  shows "lookup (root (snd (deleteSession e w s))) (SESSION_DIR e @ [pid, f]) =
         lookup (root w) (SESSION_DIR e @ [pid, f])"
proof -
  have "\<forall>t \<in> set (stepsDone e w s).
      \<not> prefix (fst t) (SESSION_DIR e @ [pid, f]) \<and>
      \<not> strict_prefix (SESSION_DIR e @ [pid, f]) (fst t)"
  proof (cases "Session.id s")
    case None
    then show ?thesis by (simp add: stepsDone_def)
  next
    case (Some sid)
    then have "f \<noteq> sid @ ''.json''" using assms by simp
    then show ?thesis using Some
      by (auto simp: stepsDone_def storage_dirs strict_prefix_def split: option.splits if_splits)
  qed
  from rmAll_other[OF this] show ?thesis by (simp add: deleteSession_steps)
qed

lemma deleteSessions_sibling:
  "\<forall>s \<in> set ss. \<forall>sid. Session.id s = Some sid \<longrightarrow> f \<noteq> sid @ ''.json'' \<Longrightarrow>
   lookup (root (snd (deleteSessions e w ss))) (SESSION_DIR e @ [pid, f]) =
   lookup (root w) (SESSION_DIR e @ [pid, f])"
proof (induction ss arbitrary: w)
  case Nil
  then show ?case by simp
next
  case (Cons s ss)
  obtain r w' where d: "deleteSession e w s = (r, w')" by (cases "deleteSession e w s")
  obtain rs w'' where ds: "deleteSessions e w' ss = (rs, w'')"
    by (cases "deleteSessions e w' ss")
  have "\<forall>sid. Session.id s = Some sid \<longrightarrow> f \<noteq> sid @ ''.json''"
    using Cons.prems by simp
  from deleteSession_sibling[OF this, of e w pid]
  have "lookup (root w') (SESSION_DIR e @ [pid, f]) = lookup (root w) (SESSION_DIR e @ [pid, f])"
    using d by simp
  moreover have "lookup (root w'') (SESSION_DIR e @ [pid, f]) =
      lookup (root w') (SESSION_DIR e @ [pid, f])"
    using Cons.IH[of w'] Cons.prems ds by simp
  ultimately show ?case using d ds by simp
qed

lemma lookup_nest_append: "lookup (nest p n) (p @ q) = lookup n q"
  by (induction p) simp_all

lemma exDisk3_third:
  "lookup (root exDisk3) (SESSION_DIR exEnv @ [''p1'', ''s4.json'']) = Some (File txtS4)"
proof -
  have "lookup (root exDisk3) ((SESSION_DIR exEnv @ [''p1'']) @ [''s4.json'']) = Some (File txtS4)"
    unfolding exDisk3_def fsys.select_convs lookup_nest_append by simp
  then show ?thesis by simp
qed

lemma exDisk4_eval:
  "liveSessionFiles exEnv exDisk4 ''p1'' = []"
  "\<not> rmFails exDisk4 (PROJECT_DIR exEnv @ [''p1.json'']) False"
  "\<not> rmFails exDisk4 (SESSION_DIR exEnv @ [''p1'']) True"
  "\<not> rmFails exDisk4 (SNAPSHOT_DIR exEnv @ [''p1'']) True"
  "\<not> absent exDisk4 (PROJECT_DIR exEnv @ [''p1.json''])"
  "\<not> absent exDisk4 (SESSION_DIR exEnv @ [''p1''])"
  "\<not> absent exDisk4 (SNAPSHOT_DIR exEnv @ [''p1''])"
  "readFile exDisk4 (FRECENCY_FILE exEnv) = Some (unlines [txtE1, txtE2])"
  by (simp_all add: liveSessionFiles_def readdir_def rmFails_def rm_def absent_def readFile_def
      exDisk4_def config_defs exEnv_def endsWith_def suffix_to_prefix)












































section \<open>The claims\<close>












text \<open>
  C5. Every session given to \<open>loadProjectInfos\<close> is in the session list of exactly one
  of the project entries it returns: the entry built from the record of its project id
  when the project map has one, and otherwise the placeholder with that id, marked orphan.
\<close>

theorem loadProjectInfos_partition:
  assumes "s \<in> set ss"
  shows "length (filter (\<lambda>pi. s \<in> set (ProjectInfo.sessions pi)) (loadProjectInfos w ss ps)) = 1 \<and>
     (\<forall>pi \<in> set (loadProjectInfos w ss ps). s \<in> set (ProjectInfo.sessions pi) \<longrightarrow>
        (case map_of ps (projectID s) of
           None \<Rightarrow> Project.id pi = projectID s \<and> ProjectInfo.isOrphan pi
         | Some project \<Rightarrow> Project.truncate pi = project))"
proof
  let ?P = "\<lambda>pi. s \<in> set (ProjectInfo.sessions pi)"
  let ?groups = "groupSessions ss"
  have "(projectID s, filter (\<lambda>t. projectID t = projectID s) ss) \<in> set ?groups"
    using assms by (simp add: groupSessions_elem)
  then have key: "projectID s \<in> fst ` set ?groups"
    by (rule image_eqI[rotated]) simp
  have "filter (\<lambda>g. s \<in> set (snd g)) ?groups = filter (\<lambda>g. fst g = projectID s) ?groups"
    by (rule filter_cong[OF refl]) (rule group_of_session[OF assms])
  then have one: "length (filter (\<lambda>g. s \<in> set (snd g)) ?groups) = 1"
    using count_key[OF groupSessions_distinct key] by simp
  have "length (filter ?P (loadProjectInfos w ss ps)) =
        length (filter ?P (map (projectInfoOfGroup w ps) ?groups
           @ map (\<lambda>kv. projectInfoEmpty w (snd kv))
               (filter (\<lambda>kv. map_of ?groups (fst kv) = None) ps)))"
    by (simp add: loadProjectInfos_def buildProjectInfos_def Let_def filter_sort)
  also have "\<dots> = length (filter (\<lambda>g. s \<in> set (snd g)) ?groups)"
    by (simp add: filter_map comp_def group_sel empty_sel)
  finally show "length (filter ?P (loadProjectInfos w ss ps)) = 1" using one by simp
next
  show "\<forall>pi \<in> set (loadProjectInfos w ss ps). s \<in> set (ProjectInfo.sessions pi) \<longrightarrow>
        (case map_of ps (projectID s) of
           None \<Rightarrow> Project.id pi = projectID s \<and> ProjectInfo.isOrphan pi
         | Some project \<Rightarrow> Project.truncate pi = project)"
  proof (intro ballI impI)
    fix pi assume pi: "pi \<in> set (loadProjectInfos w ss ps)"
      and s: "s \<in> set (ProjectInfo.sessions pi)"
    from pi s obtain g where g: "g \<in> set (groupSessions ss)" "pi = projectInfoOfGroup w ps g"
      by (auto simp: loadProjectInfos_set empty_sel)
    with s have "fst g = projectID s"
      using group_of_session[OF assms g(1)] by (simp add: group_sel)
    then show "case map_of ps (projectID s) of
           None \<Rightarrow> Project.id pi = projectID s \<and> ProjectInfo.isOrphan pi
         | Some project \<Rightarrow> Project.truncate pi = project"
      using g(2) by (simp add: projectInfoOfGroup_def Let_def pextend_sel split: option.splits)
  qed
qed

theorem loadProjectInfos_partition_witness:
  "exS3 \<in> set exSessions \<and>
   length (filter (\<lambda>pi. exS3 \<in> set (ProjectInfo.sessions pi))
     (loadProjectInfos exDisk exSessions exProjects)) = 1 \<and>
   exInfoP2 \<in> set (loadProjectInfos exDisk exSessions exProjects) \<and>
   exS3 \<in> set (ProjectInfo.sessions exInfoP2) \<and>
   map_of exProjects (projectID exS3) = None \<and>
   Project.id exInfoP2 = projectID exS3 \<and> ProjectInfo.isOrphan exInfoP2"
proof -
  have h: "exS3 \<in> set exSessions" by (simp add: exSessions_def)
  have m: "exInfoP2 \<in> set (loadProjectInfos exDisk exSessions exProjects)"
    by (rule exInfoP2_mem) (simp add: exProjects_def)
  have s: "exS3 \<in> set (ProjectInfo.sessions exInfoP2)" by (simp add: exInfoP2_def)
  have n: "map_of exProjects (projectID exS3) = None" by (simp add: exProjects_def exS_sel)
  note t = loadProjectInfos_partition [OF h, of exDisk exProjects]
  from t[THEN conjunct2, THEN bspec, OF m, THEN mp, OF s] n
  have c: "Project.id exInfoP2 = projectID exS3 \<and> ProjectInfo.isOrphan exInfoP2" by simp
  from h t[THEN conjunct1] m s n c show ?thesis by (intro conjI) simp_all
qed

text \<open>
  C6. \<open>cleanupEmptyProject\<close> returns true exactly when the project's session directory
  lists no session file now, that is when no \<open>.json\<close> file is on the disk in it. When
  one is, the disk is left unchanged. When none is, the project record, the session
  directory and the snapshot directory are absent afterwards (each unless its removal ends
  with an I/O error) and the frequency log is rewritten without the entries under the
  worktree. In the witness two of three sessions are deleted by \<open>deleteSessions\<close>: the
  cleanup returns false and changes nothing.
\<close>

theorem cleanupEmptyProject_iff:
  "fst (cleanupEmptyProject e w pid wt) = (liveSessionFiles e w pid = []) \<and>
   (liveSessionFiles e w pid = []) =
     (\<forall>f. endsWith f ''.json'' \<longrightarrow> absent w (SESSION_DIR e @ [pid, f])) \<and>
   (liveSessionFiles e w pid \<noteq> [] \<longrightarrow> snd (cleanupEmptyProject e w pid wt) = w) \<and>
   (liveSessionFiles e w pid = [] \<longrightarrow>
      (\<not> rmFails w (PROJECT_DIR e @ [pid @ ''.json'']) False \<longrightarrow>
         absent (snd (cleanupEmptyProject e w pid wt)) (PROJECT_DIR e @ [pid @ ''.json''])) \<and>
      (\<not> rmFails w (SESSION_DIR e @ [pid]) True \<longrightarrow>
         absent (snd (cleanupEmptyProject e w pid wt)) (SESSION_DIR e @ [pid])) \<and>
      (\<not> rmFails w (SNAPSHOT_DIR e @ [pid]) True \<longrightarrow>
         absent (snd (cleanupEmptyProject e w pid wt)) (SNAPSHOT_DIR e @ [pid])) \<and>
      (\<forall>content. readFile w (FRECENCY_FILE e) = Some content \<longrightarrow>
         readFile (snd (cleanupEmptyProject e w pid wt)) (FRECENCY_FILE e) =
           Some (join_with [LF] (filter (keepLine e wt) (logLines content)) @ [LF])))"
proof (intro conjI impI allI)
  let ?P = "PROJECT_DIR e @ [pid @ ''.json'']"
  let ?S = "SESSION_DIR e @ [pid]"
  let ?N = "SNAPSHOT_DIR e @ [pid]"
  let ?w1 = "snd (safeRm w ?P False)"
  let ?w2 = "snd (safeRm ?w1 ?S True)"
  let ?w3 = "snd (safeRm ?w2 ?N True)"
  let ?w4 = "snd (cleanFrecencyForDirectory e ?w3 wt)"
  show "fst (cleanupEmptyProject e w pid wt) = (liveSessionFiles e w pid = [])"
    by (simp add: cleanupEmptyProject_def Let_def getProjectSessionCount_live)
  show "(liveSessionFiles e w pid = []) =
     (\<forall>f. endsWith f ''.json'' \<longrightarrow> absent w (SESSION_DIR e @ [pid, f]))"
    by (rule liveSessionFiles_empty)
  show "snd (cleanupEmptyProject e w pid wt) = w" if "liveSessionFiles e w pid \<noteq> []"
    using that by (simp add: cleanupEmptyProject_def Let_def getProjectSessionCount_live)
  assume z: "liveSessionFiles e w pid = []"
  then have r: "snd (cleanupEmptyProject e w pid wt) = ?w4"
    by (simp add: cleanupEmptyProject_def Let_def getProjectSessionCount_live)
  show "absent (snd (cleanupEmptyProject e w pid wt)) ?P" if "\<not> rmFails w ?P False"
    unfolding r using that
    by (intro cleanFrecency_keeps_absent safeRm_keeps_absent safeRm_absent)
  have s1: "rmFails ?w1 ?S True = rmFails w ?S True"
    by (rule rmFails_after) (rule cleanup_indep, simp add: cleanup_targets)
  show "absent (snd (cleanupEmptyProject e w pid wt)) ?S" if "\<not> rmFails w ?S True"
    unfolding r using that s1
    by (intro cleanFrecency_keeps_absent safeRm_keeps_absent safeRm_absent) simp
  have n1: "rmFails ?w1 ?N True = rmFails w ?N True"
    by (rule rmFails_after) (rule cleanup_indep, simp add: cleanup_targets)
  have n2: "rmFails ?w2 ?N True = rmFails ?w1 ?N True"
    by (rule rmFails_after) (rule cleanup_indep, simp add: cleanup_targets)
  show "absent (snd (cleanupEmptyProject e w pid wt)) ?N" if "\<not> rmFails w ?N True"
    unfolding r using that n1 n2
    by (intro cleanFrecency_keeps_absent safeRm_absent) simp
  fix content assume c: "readFile w (FRECENCY_FILE e) = Some content"
  have "readFile ?w3 (FRECENCY_FILE e) = Some content"
    using c by (simp add: safeRm_readFile cleanup_targets share_state)
  from cleanFrecency_present[OF this, of wt]
  show "readFile (snd (cleanupEmptyProject e w pid wt)) (FRECENCY_FILE e) =
           Some (join_with [LF] (filter (keepLine e wt) (logLines content)) @ [LF])"
    unfolding r by simp
qed

theorem cleanupEmptyProject_iff_witness:
  "endsWith ''s4.json'' ''.json'' \<and>
   \<not> absent (snd (deleteSessions exEnv exDisk3 [exS1, exS2]))
       (SESSION_DIR exEnv @ [''p1'', ''s4.json'']) \<and>
   cleanupEmptyProject exEnv (snd (deleteSessions exEnv exDisk3 [exS1, exS2])) ''p1'' ''/a''
     = (False, snd (deleteSessions exEnv exDisk3 [exS1, exS2])) \<and>
   liveSessionFiles exEnv exDisk4 ''p1'' = [] \<and>
   fst (cleanupEmptyProject exEnv exDisk4 ''p1'' ''/a'') \<and>
   \<not> absent exDisk4 (PROJECT_DIR exEnv @ [''p1.json'']) \<and>
   absent (snd (cleanupEmptyProject exEnv exDisk4 ''p1'' ''/a'')) (PROJECT_DIR exEnv @ [''p1.json'']) \<and>
   absent (snd (cleanupEmptyProject exEnv exDisk4 ''p1'' ''/a'')) (SESSION_DIR exEnv @ [''p1'']) \<and>
   absent (snd (cleanupEmptyProject exEnv exDisk4 ''p1'' ''/a'')) (SNAPSHOT_DIR exEnv @ [''p1'']) \<and>
   readFile (snd (cleanupEmptyProject exEnv exDisk4 ''p1'' ''/a'')) (FRECENCY_FILE exEnv)
     = Some (unlines [txtE2])"
proof -
  let ?w3 = "snd (deleteSessions exEnv exDisk3 [exS1, exS2])"
  note t3 = cleanupEmptyProject_iff [of exEnv ?w3 "''p1''" "''/a''"]
  note t4 = cleanupEmptyProject_iff [of exEnv exDisk4 "''p1''" "''/a''"]
  have e: "endsWith ''s4.json'' ''.json''" by (simp add: endsWith_def suffix_to_prefix)
  have "lookup (root ?w3) (SESSION_DIR exEnv @ [''p1'', ''s4.json'']) = Some (File txtS4)"
    using deleteSessions_sibling[of "[exS1, exS2]" "''s4.json''" exEnv exDisk3 "''p1''"]
    by (simp add: exS_id exDisk3_third)
  then have p: "\<not> absent ?w3 (SESSION_DIR exEnv @ [''p1'', ''s4.json''])"
    by (simp add: absent_def)
  from t3[THEN conjunct2, THEN conjunct1] e p
  have l: "liveSessionFiles exEnv ?w3 ''p1'' \<noteq> []" by blast
  from t3[THEN conjunct1] t3[THEN conjunct2, THEN conjunct2, THEN conjunct1, THEN mp, OF l] l
  have c3: "cleanupEmptyProject exEnv ?w3 ''p1'' ''/a'' = (False, ?w3)"
    by (simp add: prod_eq_iff)
  note z = exDisk4_eval(1)
  note r4 = t4[THEN conjunct2, THEN conjunct2, THEN conjunct2, THEN mp, OF z]
  from t4[THEN conjunct1] z have f4: "fst (cleanupEmptyProject exEnv exDisk4 ''p1'' ''/a'')"
    by simp
  from r4[THEN conjunct1] exDisk4_eval(2)
  have a1: "absent (snd (cleanupEmptyProject exEnv exDisk4 ''p1'' ''/a''))
      (PROJECT_DIR exEnv @ [''p1.json''])" by simp
  note a2 = r4[THEN conjunct2, THEN conjunct1, THEN mp, OF exDisk4_eval(3)]
  note a3 = r4[THEN conjunct2, THEN conjunct2, THEN conjunct1, THEN mp, OF exDisk4_eval(4)]
  from r4[THEN conjunct2, THEN conjunct2, THEN conjunct2, THEN spec, THEN mp, OF exDisk4_eval(8)]
  have fr: "readFile (snd (cleanupEmptyProject exEnv exDisk4 ''p1'' ''/a'')) (FRECENCY_FILE exEnv)
     = Some (unlines [txtE2])"
    by (simp add: logLines_unlines[OF ex_plainLines] ex_keepLine) (simp add: unlines_def)
  from e p c3 z f4 exDisk4_eval(5) a1 a2 a3 fr show ?thesis by (intro conjI)
qed

text \<open>
  C7, as stated: every line that fails to parse is preserved verbatim. It is not: in the
  log \<open>exBadLog\<close> the first line cannot be read and starts with a blank, the second
  line is empty; nothing matches the prefix and 0 is returned, yet the rewritten log has
  lost the blank of the first line and the empty line.
\<close>

theorem cleanFrecency_lines_counterexample:
  "'' {bad'' \<in> set (split_on LF exBadLog) \<and> parseEntry exEnv '' {bad'' = None \<and>
   length (split_on LF exBadLog) = 4 \<and>
   fst (cleanFrecencyForDirectory exEnv (frecDisk exBadLog) ''/a'') = 0 \<and>
   readFile (snd (cleanFrecencyForDirectory exEnv (frecDisk exBadLog) ''/a''))
     (FRECENCY_FILE exEnv) = Some (''{bad'' @ [LF] @ txtE2 @ [LF]) \<and>
   '' {bad'' \<notin> set (split_on LF (''{bad'' @ [LF] @ txtE2 @ [LF])) \<and>
   length (split_on LF (''{bad'' @ [LF] @ txtE2 @ [LF])) = 3"
proof -
  note p = cleanFrecency_present[OF frecDisk_read, of exBadLog "''/a''"]
  have m1: "'' {bad'' \<in> set (split_on LF exBadLog)"
    by (simp add: exBadLog_lines(1))
  have n1: "length (split_on LF exBadLog) = 4"
    by (simp add: exBadLog_lines(1))
  have c0: "fst (cleanFrecencyForDirectory exEnv (frecDisk exBadLog) ''/a'') = 0"
    using p[THEN conjunct1] by (simp add: exBadLog_lines(2) ex_keepLine)
  have c1: "readFile (snd (cleanFrecencyForDirectory exEnv (frecDisk exBadLog) ''/a''))
     (FRECENCY_FILE exEnv) = Some (''{bad'' @ [LF] @ txtE2 @ [LF])"
    using p[THEN conjunct2, THEN conjunct1] by (simp add: exBadLog_lines(2) ex_keepLine)
  have ne: "'' {bad'' \<noteq> txtE2" by (simp add: txtE2_def)
  have m2: "'' {bad'' \<notin> set (split_on LF (''{bad'' @ [LF] @ txtE2 @ [LF]))"
    unfolding exBadLog_lines(3) using ne by simp
  have n2: "length (split_on LF (''{bad'' @ [LF] @ txtE2 @ [LF])) = 3"
    unfolding exBadLog_lines(3) by simp
  from m1 ex_parseEntry(4) n1 c0 c1 m2 n2 show ?thesis by (intro conjI)
qed

text \<open>
  C7, amended. Without a log file the result is 0 and the disk is unchanged. Otherwise the
  log is rewritten from the non-empty lines of its trimmed content: those that cannot be
  read or whose path does not start with the prefix are kept in order, unchanged and each
  ended by a newline, and the number of the other lines is returned. For a log of plain
  lines these are exactly its lines. The log of the two entries \<open>/a/b\<close> and \<open>/c\<close>,
  cleaned for \<open>/a\<close>, keeps the second entry and returns 1 (the witness).
\<close>

theorem cleanFrecency_lines:
  "(readFile w (FRECENCY_FILE e) = None \<longrightarrow> cleanFrecencyForDirectory e w dir = (0, w)) \<and>
   (\<forall>content. readFile w (FRECENCY_FILE e) = Some content \<longrightarrow>
      fst (cleanFrecencyForDirectory e w dir) =
        length (filter (\<lambda>l. \<not> keepLine e dir l) (logLines content)) \<and>
      readFile (snd (cleanFrecencyForDirectory e w dir)) (FRECENCY_FILE e) =
        Some (join_with [LF] (filter (keepLine e dir) (logLines content)) @ [LF])) \<and>
   (\<forall>ls. plainLines ls \<longrightarrow> logLines (unlines ls) = ls)"
  using cleanFrecency_missing[of w e dir] cleanFrecency_present[of w e _ dir] logLines_unlines
  by blast

theorem cleanFrecency_lines_witness:
  "readFile (frecDisk (unlines [txtE1, txtE2])) (FRECENCY_FILE exEnv)
     = Some (unlines [txtE1, txtE2]) \<and>
   plainLines [txtE1, txtE2] \<and>
   fst (cleanFrecencyForDirectory exEnv (frecDisk (unlines [txtE1, txtE2])) ''/a'') = 1 \<and>
   readFile (snd (cleanFrecencyForDirectory exEnv (frecDisk (unlines [txtE1, txtE2])) ''/a''))
     (FRECENCY_FILE exEnv) = Some (unlines [txtE2]) \<and>
   readFile exEmptyDisk (FRECENCY_FILE exEnv) = None \<and>
   cleanFrecencyForDirectory exEnv exEmptyDisk ''/a'' = (0, exEmptyDisk)"
proof -
  let ?w = "frecDisk (unlines [txtE1, txtE2])"
  note t = cleanFrecency_lines [of ?w exEnv "''/a''"]
  note u = cleanFrecency_lines [of exEmptyDisk exEnv "''/a''"]
  have r: "readFile ?w (FRECENCY_FILE exEnv) = Some (unlines [txtE1, txtE2])"
    by (rule frecDisk_read)
  from t[THEN conjunct2, THEN conjunct2, THEN spec, THEN mp, OF ex_plainLines]
  have l: "logLines (unlines [txtE1, txtE2]) = [txtE1, txtE2]" .
  from t[THEN conjunct2, THEN conjunct1, THEN spec, THEN mp, OF r]
  have a: "fst (cleanFrecencyForDirectory exEnv ?w ''/a'') = 1"
    and b: "readFile (snd (cleanFrecencyForDirectory exEnv ?w ''/a'')) (FRECENCY_FILE exEnv)
       = Some (unlines [txtE2])"
    by (simp_all add: l ex_keepLine) (simp add: unlines_def)
  from u[THEN conjunct1, THEN mp, OF ex_frec_absent]
  have c: "cleanFrecencyForDirectory exEnv exEmptyDisk ''/a'' = (0, exEmptyDisk)" .
  from r ex_plainLines a b ex_frec_absent c show ?thesis by (intro conjI)
qed

text \<open>
  C8. For every project entry, \<open>totalSizeBytes\<close> is the sum of \<open>sizeBytes\<close> over its
  sessions and \<open>sessionCount\<close> their number; every project of the map that no session
  names is returned as an entry with no session, count 0 and size 0.
\<close>

theorem loadProjectInfos_totals:
  "(\<forall>pi \<in> set (loadProjectInfos w ss ps).
      totalSizeBytes pi = sum_list (map SessionInfo.sizeBytes (ProjectInfo.sessions pi)) \<and>
      sessionCount pi = length (ProjectInfo.sessions pi)) \<and>
   (\<forall>kv \<in> set ps. fst kv \<notin> projectID ` set ss \<longrightarrow>
      (\<exists>pi \<in> set (loadProjectInfos w ss ps).
         Project.truncate pi = snd kv \<and> sessionCount pi = 0 \<and> totalSizeBytes pi = 0 \<and>
         ProjectInfo.sessions pi = []))"
proof (intro conjI ballI impI)
  fix pi assume "pi \<in> set (loadProjectInfos w ss ps)"
  then consider g where "pi = projectInfoOfGroup w ps g"
    | p where "pi = projectInfoEmpty w p"
    by (auto simp: loadProjectInfos_set)
  then show "totalSizeBytes pi = sum_list (map SessionInfo.sizeBytes (ProjectInfo.sessions pi))"
    by cases (simp_all add: group_sel empty_sel totalSizeOf_sum)
  from \<open>pi \<in> set (loadProjectInfos w ss ps)\<close>
  consider g where "pi = projectInfoOfGroup w ps g"
    | p where "pi = projectInfoEmpty w p"
    by (auto simp: loadProjectInfos_set)
  then show "sessionCount pi = length (ProjectInfo.sessions pi)"
    by cases (simp_all add: group_sel empty_sel)
next
  fix kv assume kv: "kv \<in> set ps" and none: "fst kv \<notin> projectID ` set ss"
  have "map_of (groupSessions ss) (fst kv) = None"
    using none by (simp add: groupSessions_map_of)
  then have "projectInfoEmpty w (snd kv) \<in> set (loadProjectInfos w ss ps)"
    using kv by (auto simp: loadProjectInfos_set)
  then show "\<exists>pi \<in> set (loadProjectInfos w ss ps).
         Project.truncate pi = snd kv \<and> sessionCount pi = 0 \<and> totalSizeBytes pi = 0 \<and>
         ProjectInfo.sessions pi = []"
    by (rule bexI[rotated]) (simp add: empty_sel)
qed

theorem loadProjectInfos_totals_witness:
  "exInfoP1 \<in> set (loadProjectInfos exDisk exSessions exProjects2) \<and>
   ProjectInfo.sessions exInfoP1 = [exS2, exS1] \<and>
   totalSizeBytes exInfoP1 = 113 + 189 \<and> sessionCount exInfoP1 = 2 \<and>
   (Some ''p0'', recP0) \<in> set exProjects2 \<and> Some ''p0'' \<notin> projectID ` set exSessions \<and>
   (\<exists>pi \<in> set (loadProjectInfos exDisk exSessions exProjects2).
      Project.truncate pi = recP0 \<and> sessionCount pi = 0 \<and> totalSizeBytes pi = 0 \<and>
      ProjectInfo.sessions pi = [])"
proof -
  have m: "exInfoP1 \<in> set (loadProjectInfos exDisk exSessions exProjects2)"
    by (rule exInfoP1_mem) (simp add: exProjects2_def)
  have s: "ProjectInfo.sessions exInfoP1 = [exS2, exS1]"
    by (simp add: exInfoP1_def pextend_sel)
  have k: "(Some ''p0'', recP0) \<in> set exProjects2" by (simp add: exProjects2_def)
  have n: "fst (Some ''p0'', recP0) \<notin> projectID ` set exSessions"
    by (simp add: exSessions_def exS_sel)
  note t = loadProjectInfos_totals [of exDisk exSessions exProjects2]
  from t[THEN conjunct1, THEN bspec, OF m] s
  have a: "totalSizeBytes exInfoP1 = 113 + 189 \<and> sessionCount exInfoP1 = 2"
    by (simp add: exS_sel)
  from t[THEN conjunct2, THEN bspec, OF k, THEN mp, OF n]
  have b: "\<exists>pi \<in> set (loadProjectInfos exDisk exSessions exProjects2).
      Project.truncate pi = recP0 \<and> sessionCount pi = 0 \<and> totalSizeBytes pi = 0 \<and>
      ProjectInfo.sessions pi = []"
    by simp
  have n': "Some ''p0'' \<notin> projectID ` set exSessions" using n by simp
  from m s a k n' b show ?thesis by (intro conjI) simp_all
qed







end
